theory Spec2Isabelle
  imports Complex_Main "HOL-Library.Char_ord" "HOL-Library.List_Lexorder"
begin

section \<open>JavaScript values and objects\<close>

text \<open>
  The adapters are written against untyped objects (\<^verbatim>\<open>any\<close>): raw backend
  responses, request parameters, option and config dictionaries and the entries
  they return are all plain JavaScript objects.  An object is modelled as a partial
  map from property names to values; object spread \<^verbatim>\<open>{...a, ...b}\<close> is map
  override \<open>a ++ b\<close>.

  \<open>JDate ms\<close> is a last-modified instant (a \<^verbatim>\<open>Date\<close>, or a date string the
  \<^verbatim>\<open>Date\<close> constructor parses) given by its epoch milliseconds.  Numbers are
  exact rationals; \<open>JNaN\<close> is the number \<^verbatim>\<open>NaN\<close>.  \<open>JBuf\<close> is a
  \<^verbatim>\<open>Buffer\<close>, \<open>JStream\<close> an SDK body stream (it has
  \<^verbatim>\<open>transformToString\<close>), \<open>JBlob\<close> a \<^verbatim>\<open>Blob\<close>, each given by the text
  it holds.  Strings are byte strings, so \<open>length\<close> is \<^verbatim>\<open>Buffer.byteLength\<close>.
\<close>

datatype jsval =
    JStr string
  | JNum rat
  | JNaN
  | JBool bool
  | JDate int
  | JBuf string
  | JStream string
  | JBlob string
  | JObj "(string \<times> string) list"

type_synonym jsobj = "string \<Rightarrow> jsval option"

text \<open>Truthiness of a property read; a missing property reads \<^verbatim>\<open>undefined\<close>.\<close>

fun truthy :: "jsval option \<Rightarrow> bool" where
  "truthy None = False"
| "truthy (Some (JStr s)) = (s \<noteq> [])"
| "truthy (Some (JNum n)) = (n \<noteq> 0)"
| "truthy (Some JNaN) = False"
| "truthy (Some (JBool b)) = b"
| "truthy (Some v) = True"

text \<open>A property read where the code goes on to use the value as a string.\<close>

fun str_of :: "jsval option \<Rightarrow> string" where
  "str_of (Some (JStr s)) = s"
| "str_of v = []"

section \<open>The string helpers of the npm packages \<^verbatim>\<open>rtrim\<close> and \<^verbatim>\<open>ltrim\<close>\<close>

text \<open>
  Both packages walk the string from one end and cut at the first character that is
  not one of \<open>chars\<close>; when every character is one of \<open>chars\<close> the loop ends
  without cutting and the string is returned as it is.  The adapters always pass
  \<^verbatim>\<open>'/'\<close> for \<open>chars\<close> (the packages' whitespace mode, taken when \<open>chars\<close> is
  empty, is never used).
\<close>

definition rtrim :: "string \<Rightarrow> string \<Rightarrow> string" where
  "rtrim str chars =
     (if list_all (\<lambda>c. c \<in> set chars) str then str
      else rev (dropWhile (\<lambda>c. c \<in> set chars) (rev str)))"

definition ltrim :: "string \<Rightarrow> string \<Rightarrow> string" where
  "ltrim str chars =
     (if list_all (\<lambda>c. c \<in> set chars) str then str
      else dropWhile (\<lambda>c. c \<in> set chars) str)"

text \<open>\<^verbatim>\<open>s.substr(-1) === '/'\<close> and \<^verbatim>\<open>s[s.length - 1] === '/'\<close>.\<close>

definition ends_with_slash :: "string \<Rightarrow> bool" where
  "ends_with_slash s = (s \<noteq> [] \<and> last s = CHR ''/'')"

section \<open>Path namespacing (\<^verbatim>\<open>AbstractAdapter\<close>)\<close>

text \<open>
  Modelled from the spec: \<^verbatim>\<open>AbstractAdapter\<close> (\<^verbatim>\<open>setPathPrefix\<close>,
  \<^verbatim>\<open>applyPathPrefix\<close>, \<^verbatim>\<open>removePathPrefix\<close>) is not among the source files.
  The spec: the configured root is concatenated with the relative path, duplicate
  separators where they meet are normalised; removing the prefix returns the
  remainder after the root, and the input unchanged when the root is empty.
\<close>

definition setPathPrefix :: "string \<Rightarrow> string" where
  "setPathPrefix prefix_arg =
     (if prefix_arg = [] then []
      else rev (dropWhile (\<lambda>c. c = CHR ''/'') (rev prefix_arg)) @ ''/'')"

definition applyPathPrefix :: "string \<Rightarrow> string \<Rightarrow> string" where
  "applyPathPrefix pathPrefix path =
     pathPrefix @ dropWhile (\<lambda>c. c = CHR ''/'') path"

definition removePathPrefix :: "string \<Rightarrow> string \<Rightarrow> string" where
  "removePathPrefix pathPrefix path = drop (length pathPrefix) path"

section \<open>Path information and field mapping (\<^verbatim>\<open>UtilHelper\<close>)\<close>

text \<open>
  Modelled from the spec: \<^verbatim>\<open>UtilHelper.pathinfo\<close> is not among the source files.
  The spec: \<open>dirname\<close>, \<open>basename\<close>, \<open>filename\<close> and \<open>extension\<close> are derived
  from the path string alone; \<open>dirname\<close> is the parent path (empty at the root),
  \<open>basename\<close> the last \<^verbatim>\<open>/\<close>-delimited segment, \<open>extension\<close> the suffix after
  the last \<^verbatim>\<open>.\<close> of that segment (empty if none), \<open>filename\<close> the basename
  without its extension.  A directory's entry has its immediate parent as
  \<open>dirname\<close>, so trailing separators do not count as a segment.
\<close>

definition strip_sep :: "string \<Rightarrow> string" where
  "strip_sep p = rev (dropWhile (\<lambda>c. c = CHR ''/'') (rev p))"

definition basename_of :: "string \<Rightarrow> string" where
  "basename_of p = rev (takeWhile (\<lambda>c. c \<noteq> CHR ''/'') (rev (strip_sep p)))"

definition dirname_of :: "string \<Rightarrow> string" where
  "dirname_of p =
     rev (dropWhile (\<lambda>c. c = CHR ''/'')
            (dropWhile (\<lambda>c. c \<noteq> CHR ''/'') (rev (strip_sep p))))"

definition extension_of :: "string \<Rightarrow> string" where
  "extension_of b =
     (if CHR ''.'' \<in> set b then rev (takeWhile (\<lambda>c. c \<noteq> CHR ''.'') (rev b)) else [])"

definition filename_of :: "string \<Rightarrow> string" where
  "filename_of b =
     (if CHR ''.'' \<in> set b then rev (drop 1 (dropWhile (\<lambda>c. c \<noteq> CHR ''.'') (rev b)))
      else b)"

definition pathinfo :: "string \<Rightarrow> jsobj" where
  "pathinfo p =
     [''dirname'' \<mapsto> JStr (dirname_of p),
      ''basename'' \<mapsto> JStr (basename_of p),
      ''extension'' \<mapsto> JStr (extension_of (basename_of p)),
      ''filename'' \<mapsto> JStr (filename_of (basename_of p))]"

text \<open>
  Modelled from the spec: \<^verbatim>\<open>UtilHelper.map\<close> is not among the source files.
  The spec: a table from backend key names to entry field names; a field the
  response has is copied under its entry name, a missing one stays absent.  The
  table is walked in its declared order, so a later row wins.
\<close>

definition UtilHelper_map :: "jsobj \<Rightarrow> (string \<times> string) list \<Rightarrow> jsobj" where
  "UtilHelper_map object tbl =
     fold (\<lambda>(from_key, to_key) acc.
             (case object from_key of None \<Rightarrow> acc | Some v \<Rightarrow> acc(to_key \<mapsto> v)))
          tbl Map.empty"

text \<open>\<^verbatim>\<open>item.path\<close> of an entry.\<close>

definition path_of :: "jsobj \<Rightarrow> string" where
  "path_of item = str_of (item ''path'')"

text \<open>
  Modelled from the spec: \<^verbatim>\<open>UtilHelper.emulateDirectories\<close> is not among the
  source files.  The spec (Directory Emulator): for every entry that is not a
  direct child, one \<open>dir\<close> entry is synthesized for every ancestor level; the
  synthesized entries are deduplicated by path, and a \<open>dir\<close> entry the listing
  already has wins over a synthesized one; real and synthesized entries are merged
  and ordered by path, so that an ancestor comes before its descendants.  The
  adapters call it with the listing alone and filter the query root out of its
  result themselves, so the ancestor levels are followed up to the top.
\<close>

function ancestors :: "string \<Rightarrow> string list" where
  "ancestors p =
     (if dirname_of p = [] then [] else dirname_of p # ancestors (dirname_of p))"
  by pat_completeness auto
termination
proof (relation "measure length")
  show "wf (measure length)" by simp
next
  fix p :: string
  assume ne: "dirname_of p \<noteq> []"
  define r where "r = rev (strip_sep p)"
  have len_r: "length r \<le> length p"
    unfolding r_def strip_sep_def
    by (simp add: length_dropWhile_le order.trans [OF length_dropWhile_le])
  have d: "dirname_of p =
      rev (dropWhile (\<lambda>c. c = CHR ''/'') (dropWhile (\<lambda>c. c \<noteq> CHR ''/'') r))"
    by (simp add: dirname_of_def r_def)
  from ne d have "r \<noteq> []" by auto
  then obtain c cs where r: "r = c # cs" by (cases r) auto
  have "c \<noteq> CHR ''/''"
  proof
    assume "c = CHR ''/''"
    then have "hd (dropWhile (\<lambda>c. c = CHR ''/'') (rev p)) = CHR ''/''"
      using r by (simp add: r_def strip_sep_def)
    moreover have "dropWhile (\<lambda>c. c = CHR ''/'') (rev p) \<noteq> []"
      using r by (auto simp: r_def strip_sep_def)
    ultimately show False
      using hd_dropWhile [of "\<lambda>c. c = CHR ''/''" "rev p"] by simp
  qed
  then have "length (dropWhile (\<lambda>c. c \<noteq> CHR ''/'') r) \<le> length cs"
    using r by (simp add: length_dropWhile_le)
  then have "length (dirname_of p) \<le> length cs"
    unfolding d by (simp add: order.trans [OF length_dropWhile_le])
  with r len_r show "(dirname_of p, p) \<in> measure length" by simp
qed

declare ancestors.simps [simp del]

definition is_dir :: "jsobj \<Rightarrow> bool" where
  "is_dir item = (item ''type'' = Some (JStr ''dir''))"

definition synthesized_dir :: "string \<Rightarrow> jsobj" where
  "synthesized_dir d = ([''path'' \<mapsto> JStr d] ++ pathinfo d)(''type'' \<mapsto> JStr ''dir'')"

definition emulateDirectories :: "jsobj list \<Rightarrow> jsobj list" where
  "emulateDirectories listing =
     (let listed = map path_of (filter is_dir listing);
          directories = remdups (concat (map (\<lambda>item. ancestors (path_of item)) listing));
          missing = filter (\<lambda>d. d \<notin> set listed) directories
      in sort_key path_of (listing @ map synthesized_dir missing))"

section \<open>The object store behind the S3 and Bun adapters\<close>

text \<open>
  The storage medium is an external collaborator; the adapters reach it only
  through client calls.  It is modelled as the durable state those calls act on:
  a bucket of objects by key, each with its body, its last-modified instant (epoch
  milliseconds), its canned ACL and its content type.  \<open>clock\<close> is the instant
  the medium stamps on what it stores.  A listing returns the matching keys in
  key order, at most \<open>maxKeys\<close> items per page (1000 on S3), with a continuation
  cursor when more remain.  A listing reports the last-modified instant as an ISO
  8601 instant with its fraction of a second, as S3-compatible stores fill it; the
  answers to \<^verbatim>\<open>HEAD\<close> and \<^verbatim>\<open>GET\<close> carry it as an HTTP date of whole seconds.

  \<open>faults\<close> scripts what no state can decide: each client call takes the first
  flag, and when it is \<open>True\<close> the call throws a medium fault (network failure,
  permission denied, rate limit) and leaves the bucket as it was.
\<close>

datatype err =
    MediumFault | NoSuchKey | NotImplemented
  | ENOENT | EISDIR | ENOTDIR | ENOTEMPTY | EINVAL

record s3object =
  obj_body :: string
  obj_modified :: int
  obj_acl :: string
  obj_ctype :: string

record s3medium =
  objects :: "(string \<times> s3object) list"
  faults :: "bool list"
  clock :: int
  maxKeys :: nat

definition take_fault :: "s3medium \<Rightarrow> bool \<times> s3medium" where
  "take_fault m =
     (case faults m of [] \<Rightarrow> (False, m) | f # fs \<Rightarrow> (f, m\<lparr>faults := fs\<rparr>))"

definition starts_with :: "string \<Rightarrow> string \<Rightarrow> bool" where
  "starts_with pfx k = (take (length pfx) k = pfx)"

definition lookup_object :: "s3medium \<Rightarrow> string \<Rightarrow> s3object option" where
  "lookup_object m key = map_of (objects m) key"

definition store_object :: "string \<Rightarrow> s3object \<Rightarrow> s3medium \<Rightarrow> s3medium" where
  "store_object key ob m =
     m\<lparr>objects := filter (\<lambda>kv. fst kv \<noteq> key) (objects m) @ [(key, ob)]\<rparr>"

definition remove_objects :: "string list \<Rightarrow> s3medium \<Rightarrow> s3medium" where
  "remove_objects keys m = m\<lparr>objects := filter (\<lambda>kv. fst kv \<notin> set keys) (objects m)\<rparr>"

text \<open>The text a body value holds, whichever way it is passed.\<close>

fun text_of :: "jsval \<Rightarrow> string" where
  "text_of (JStr s) = s"
| "text_of (JBuf s) = s"
| "text_of (JStream s) = s"
| "text_of (JBlob s) = s"
| "text_of v = []"

text \<open>
  One page of a listing: the objects under \<open>pfx\<close> after the cursor, in key order.
  With a delimiter, the keys that have a further \<^verbatim>\<open>/\<close> after the prefix are rolled
  up into common prefixes.  A page holds at most \<open>limit\<close> items, where a key listed
  by itself is one item and a common prefix, with all the keys rolled into it, is one
  item.  The cursor for the next page is the last key this page covers.
\<close>

text \<open>The common prefix a key is rolled into, if any.\<close>

definition rollup :: "string \<Rightarrow> bool \<Rightarrow> string \<Rightarrow> string option" where
  "rollup pfx delimited k =
     (if delimited \<and> CHR ''/'' \<in> set (drop (length pfx) k)
      then Some (pfx @ takeWhile (\<lambda>c. c \<noteq> CHR ''/'') (drop (length pfx) k) @ ''/'')
      else None)"

text \<open>How many of the keys, in their order, a page of \<open>limit\<close> items covers.\<close>

fun page_length :: "nat \<Rightarrow> (string \<Rightarrow> string option) \<Rightarrow> string list \<Rightarrow> string list \<Rightarrow> nat" where
  "page_length limit roll seen [] = 0"
| "page_length limit roll seen (k # ks) =
     (case roll k of
        None \<Rightarrow> if limit = 0 then 0 else Suc (page_length (limit - 1) roll seen ks)
      | Some cp \<Rightarrow>
          if cp \<in> set seen then Suc (page_length limit roll seen ks)
          else if limit = 0 then 0
          else Suc (page_length (limit - 1) roll (cp # seen) ks))"

definition list_page ::
  "s3medium \<Rightarrow> nat \<Rightarrow> string \<Rightarrow> bool \<Rightarrow> string option
     \<Rightarrow> (string \<times> s3object) list \<times> string list \<times> string option" where
  "list_page m limit pfx delimited cursor =
     (let found = sort_key fst
            (filter (\<lambda>kv. starts_with pfx (fst kv) \<and>
                          (case cursor of None \<Rightarrow> True | Some t \<Rightarrow> t < fst kv))
               (objects m));
          page = take (page_length limit (rollup pfx delimited) [] (map fst found)) found
      in (filter (\<lambda>kv. rollup pfx delimited (fst kv) = None) page,
          remdups (List.map_filter (\<lambda>kv. rollup pfx delimited (fst kv)) page),
          if length page < length found \<and> page \<noteq> [] then Some (fst (last page)) else None))"

subsection \<open>The calls of the AWS SDK client\<close>

record list_output =
  Contents :: "jsobj list"
  CommonPrefixes :: "jsobj list"
  NextContinuationToken :: "string option"

record grant =
  grantee_uri :: "string option"
  permission :: string

definition cursor_param :: "jsobj \<Rightarrow> string option" where
  "cursor_param params =
     (case params ''ContinuationToken'' of Some (JStr t) \<Rightarrow> Some t | _ \<Rightarrow> None)"

definition limit_param :: "s3medium \<Rightarrow> jsobj \<Rightarrow> nat" where
  "limit_param m params =
     (case params ''MaxKeys'' of
        Some (JNum n) \<Rightarrow> min (nat \<lfloor>n\<rfloor>) (maxKeys m)
      | _ \<Rightarrow> maxKeys m)"

definition listed_object :: "string \<times> s3object \<Rightarrow> jsobj" where
  "listed_object kv =
     [''Key'' \<mapsto> JStr (fst kv),
      ''LastModified'' \<mapsto> JDate (obj_modified (snd kv)),
      ''Size'' \<mapsto> JNum (of_nat (length (obj_body (snd kv))))]"

text \<open>\<^verbatim>\<open>ListObjectsV2Command\<close> and \<^verbatim>\<open>ListObjectsCommand\<close>.\<close>

definition send_ListObjects :: "s3medium \<Rightarrow> jsobj \<Rightarrow> (err + list_output) \<times> s3medium" where
  "send_ListObjects m params =
     (case take_fault m of
        (True, m') \<Rightarrow> (Inl MediumFault, m')
      | (False, m') \<Rightarrow>
          (case list_page m' (limit_param m' params) (str_of (params ''Prefix''))
                  (truthy (params ''Delimiter'')) (cursor_param params) of
             (found, common, cursor) \<Rightarrow>
               (Inr \<lparr>Contents = map listed_object found,
                     CommonPrefixes = map (\<lambda>cp. [''Prefix'' \<mapsto> JStr cp]) common,
                     NextContinuationToken = cursor\<rparr>, m')))"

text \<open>\<^verbatim>\<open>PutObjectCommand\<close>: creates or overwrites the object at \<open>Key\<close>.\<close>

definition send_PutObject :: "s3medium \<Rightarrow> jsobj \<Rightarrow> (err + unit) \<times> s3medium" where
  "send_PutObject m params =
     (case take_fault m of
        (True, m') \<Rightarrow> (Inl MediumFault, m')
      | (False, m') \<Rightarrow>
          (Inr (),
           store_object (str_of (params ''Key''))
             \<lparr>obj_body = (case params ''Body'' of None \<Rightarrow> [] | Some b \<Rightarrow> text_of b),
              obj_modified = clock m',
              obj_acl = str_of (params ''ACL''),
              obj_ctype = str_of (params ''ContentType'')\<rparr> m'))"

text \<open>
  \<^verbatim>\<open>GetObjectCommand\<close> and \<^verbatim>\<open>HeadObjectCommand\<close>: a missing key is an error.  The
  answer carries the modification time in its \<^verbatim>\<open>Last-Modified\<close> header, an HTTP date
  of whole seconds, and the SDK always hands over a \<^verbatim>\<open>Metadata\<close> object, empty
  when the object has no user metadata.
\<close>

definition http_date :: "int \<Rightarrow> int" where
  "http_date ms = 1000 * (ms div 1000)"

definition head_of :: "s3object \<Rightarrow> jsobj" where
  "head_of ob =
     [''ContentLength'' \<mapsto> JNum (of_nat (length (obj_body ob))),
      ''ContentType'' \<mapsto> JStr (obj_ctype ob),
      ''LastModified'' \<mapsto> JDate (http_date (obj_modified ob)),
      ''Metadata'' \<mapsto> JObj []]"

definition send_HeadObject :: "s3medium \<Rightarrow> jsobj \<Rightarrow> (err + jsobj) \<times> s3medium" where
  "send_HeadObject m params =
     (case take_fault m of
        (True, m') \<Rightarrow> (Inl MediumFault, m')
      | (False, m') \<Rightarrow>
          (case lookup_object m' (str_of (params ''Key'')) of
             None \<Rightarrow> (Inl NoSuchKey, m')
           | Some ob \<Rightarrow> (Inr (head_of ob), m')))"

definition send_GetObject :: "s3medium \<Rightarrow> jsobj \<Rightarrow> (err + jsobj) \<times> s3medium" where
  "send_GetObject m params =
     (case take_fault m of
        (True, m') \<Rightarrow> (Inl MediumFault, m')
      | (False, m') \<Rightarrow>
          (case lookup_object m' (str_of (params ''Key'')) of
             None \<Rightarrow> (Inl NoSuchKey, m')
           | Some ob \<Rightarrow> (Inr ((head_of ob)(''Body'' \<mapsto> JStream (obj_body ob))), m')))"

text \<open>
  \<^verbatim>\<open>DeleteObjectCommand\<close> and \<^verbatim>\<open>DeleteObjectsCommand\<close>: S3 answers a delete
  with success whether or not the key held an object.
\<close>

definition send_DeleteObject :: "s3medium \<Rightarrow> jsobj \<Rightarrow> (err + unit) \<times> s3medium" where
  "send_DeleteObject m params =
     (case take_fault m of
        (True, m') \<Rightarrow> (Inl MediumFault, m')
      | (False, m') \<Rightarrow> (Inr (), remove_objects [str_of (params ''Key'')] m'))"

definition send_DeleteObjects :: "s3medium \<Rightarrow> string list \<Rightarrow> (err + unit) \<times> s3medium" where
  "send_DeleteObjects m keys =
     (case take_fault m of
        (True, m') \<Rightarrow> (Inl MediumFault, m')
      | (False, m') \<Rightarrow> (Inr (), remove_objects keys m'))"

text \<open>
  \<^verbatim>\<open>CopyObjectCommand\<close>: the object named by \<open>CopySource\<close> (bucket, \<^verbatim>\<open>/\<close>,
  key) is stored at \<open>Key\<close> with the ACL of the request; a missing source is an
  error.
\<close>

definition send_CopyObject :: "s3medium \<Rightarrow> jsobj \<Rightarrow> (err + unit) \<times> s3medium" where
  "send_CopyObject m params =
     (case take_fault m of
        (True, m') \<Rightarrow> (Inl MediumFault, m')
      | (False, m') \<Rightarrow>
          (case lookup_object m'
                  (drop (Suc (length (str_of (params ''Bucket'')))) (str_of (params ''CopySource''))) of
             None \<Rightarrow> (Inl NoSuchKey, m')
           | Some ob \<Rightarrow>
               (Inr (),
                store_object (str_of (params ''Key''))
                  (ob\<lparr>obj_modified := clock m', obj_acl := str_of (params ''ACL'')\<rparr>) m')))"

text \<open>
  \<^verbatim>\<open>GetObjectAclCommand\<close> and \<^verbatim>\<open>PutObjectAclCommand\<close>.  The grants of a
  canned ACL: the owner's full control always (a grantee with an id and no URI),
  and read access for the group of all users under \<^verbatim>\<open>public-read\<close>.
\<close>

definition PUBLIC_GRANT_URI :: string where
  "PUBLIC_GRANT_URI = ''http://acs.amazonaws.com/groups/global/AllUsers''"

definition grants_of :: "string \<Rightarrow> grant list" where
  "grants_of acl =
     \<lparr>grantee_uri = None, permission = ''FULL_CONTROL''\<rparr> #
     (if acl = ''public-read''
      then [\<lparr>grantee_uri = Some PUBLIC_GRANT_URI, permission = ''READ''\<rparr>]
      else if acl = ''public-read-write''
      then [\<lparr>grantee_uri = Some PUBLIC_GRANT_URI, permission = ''READ''\<rparr>,
            \<lparr>grantee_uri = Some PUBLIC_GRANT_URI, permission = ''WRITE''\<rparr>]
      else [])"

definition send_GetObjectAcl :: "s3medium \<Rightarrow> jsobj \<Rightarrow> (err + grant list) \<times> s3medium" where
  "send_GetObjectAcl m params =
     (case take_fault m of
        (True, m') \<Rightarrow> (Inl MediumFault, m')
      | (False, m') \<Rightarrow>
          (case lookup_object m' (str_of (params ''Key'')) of
             None \<Rightarrow> (Inl NoSuchKey, m')
           | Some ob \<Rightarrow> (Inr (grants_of (obj_acl ob)), m')))"

definition send_PutObjectAcl :: "s3medium \<Rightarrow> jsobj \<Rightarrow> (err + unit) \<times> s3medium" where
  "send_PutObjectAcl m params =
     (case take_fault m of
        (True, m') \<Rightarrow> (Inl MediumFault, m')
      | (False, m') \<Rightarrow>
          (case lookup_object m' (str_of (params ''Key'')) of
             None \<Rightarrow> (Inl NoSuchKey, m')
           | Some ob \<Rightarrow>
               (Inr (), store_object (str_of (params ''Key''))
                          (ob\<lparr>obj_acl := str_of (params ''ACL'')\<rparr>) m')))"

section \<open>\<^verbatim>\<open>S3Adapter\<close> (src/adapters/s3.adapter.ts)\<close>

text \<open>
  The adapter instance: its bucket, its path prefix and its \<^verbatim>\<open>options\<close> object.
  \<open>mime\<close> is the lookup \<^verbatim>\<open>mime.getType\<close> of the imported package (a pure
  table from a path's extension to a content type, \<open>None\<close> when unknown).
\<close>

record s3adapter =
  bucket :: string
  pathPrefix :: string
  options :: jsobj
  mime :: "string \<Rightarrow> string option"

definition S3Adapter :: "string \<Rightarrow> string \<Rightarrow> jsobj \<Rightarrow> (string \<Rightarrow> string option) \<Rightarrow> s3adapter" where
  "S3Adapter bucket_arg prefix_arg options_arg mime_arg =
     \<lparr>bucket = bucket_arg, pathPrefix = setPathPrefix prefix_arg,
      options = options_arg, mime = mime_arg\<rparr>"

definition resultMap_s3 :: "(string \<times> string) list" where
  "resultMap_s3 =
     [(''Body'', ''contents''), (''ContentLength'', ''size''), (''ContentType'', ''mimetype''),
      (''Size'', ''size''), (''Metadata'', ''metadata'')]"

definition metaOptions_s3 :: "string list" where
  "metaOptions_s3 =
     [''CacheControl'', ''Expires'', ''StorageClass'', ''ServerSideEncryption'', ''Metadata'',
      ''ACL'', ''ContentType'', ''ContentEncoding'', ''ContentDisposition'', ''ContentLength'',
      ''Tagging'', ''WebsiteRedirectLocation'', ''SSEKMSKeyId'']"

definition applyPathPrefix_s3 :: "s3adapter \<Rightarrow> string \<Rightarrow> string" where
  "applyPathPrefix_s3 a path = ltrim (applyPathPrefix (pathPrefix a) path) ''/''"

text \<open>\<^verbatim>\<open>new Date(x).getTime()\<close> and division of JavaScript numbers.\<close>

fun date_getTime :: "jsval \<Rightarrow> jsval" where
  "date_getTime (JDate ms) = JNum (of_int ms)"
| "date_getTime v = JNaN"

fun js_divide :: "jsval \<Rightarrow> rat \<Rightarrow> jsval" where
  "js_divide (JNum x) d = JNum (x / d)"
| "js_divide v d = JNaN"

text \<open>The body conversion of \<^verbatim>\<open>normalizeResponse\<close>: string, Buffer, stream.\<close>

fun body_to_string_s3 :: "jsval \<Rightarrow> jsval" where
  "body_to_string_s3 (JStr s) = JStr s"
| "body_to_string_s3 (JBuf s) = JStr s"
| "body_to_string_s3 (JStream s) = JStr s"
| "body_to_string_s3 v = v"

definition normalizeResponse_s3 :: "s3adapter \<Rightarrow> jsobj \<Rightarrow> string \<Rightarrow> jsobj" where
  "normalizeResponse_s3 a response path =
     (let p = (if path \<noteq> [] then path
               else removePathPrefix (pathPrefix a)
                      (if truthy (response ''Key'') then str_of (response ''Key'')
                       else str_of (response ''Prefix'')));
          result0 = [''path'' \<mapsto> JStr p] ++ pathinfo p;
          result1 = (case response ''LastModified'' of
                       Some lm \<Rightarrow>
                         if truthy (Some lm)
                         then result0(''timestamp'' \<mapsto> js_divide (date_getTime lm) 1000)
                         else result0
                     | None \<Rightarrow> result0);
          response1 = (case response ''Body'' of
                         Some b \<Rightarrow>
                           if truthy (Some b) then response(''Body'' \<mapsto> body_to_string_s3 b)
                           else response
                       | None \<Rightarrow> response)
      in if ends_with_slash p
         then result1(''type'' \<mapsto> JStr ''dir'', ''path'' \<mapsto> JStr (rtrim p ''/''))
         else result1(''type'' \<mapsto> JStr ''file'') ++ UtilHelper_map response1 resultMap_s3)"

definition listContents_s3 ::
  "s3adapter \<Rightarrow> s3medium \<Rightarrow> string \<Rightarrow> bool \<Rightarrow> (err + jsobj list) \<times> s3medium" where
  "listContents_s3 a m directory recursive =
     (let prefix_key = applyPathPrefix_s3 a (rtrim directory ''/'' @ ''/'');
          s3Params0 = [''Bucket'' \<mapsto> JStr (bucket a), ''Prefix'' \<mapsto> JStr prefix_key];
          s3Params = (if \<not> recursive then s3Params0(''Delimiter'' \<mapsto> JStr ''/'') else s3Params0)
      in case send_ListObjects m s3Params of
           (Inl e, m') \<Rightarrow> (Inl e, m')
         | (Inr data, m') \<Rightarrow>
             (let response =
                    map (\<lambda>element. normalizeResponse_s3 a element []) (Contents data) @
                    map (\<lambda>element. normalizeResponse_s3 a element []) (CommonPrefixes data);
                  responseEmulated =
                    filter (\<lambda>item. rtrim (path_of item) ''/'' \<noteq> rtrim directory ''/'')
                      (emulateDirectories response)
              in (Inr responseEmulated, m')))"

text \<open>
  \<^verbatim>\<open>getOptionsFromConfig\<close> starts from \<^verbatim>\<open>const options = this.options\<close>: the
  object it fills is the adapter's own, so the adapter comes back with what was
  written to it; the options it returns are \<open>options\<close> of the result.
\<close>

definition getOptionsFromConfig_s3 :: "s3adapter \<Rightarrow> jsobj \<Rightarrow> s3adapter" where
  "getOptionsFromConfig_s3 a config =
     (let options0 = options a;
          options1 =
            (if truthy (config ''visibility'')
             then options0(''visibility'' := config ''visibility'',
                           ''ACL'' \<mapsto> JStr (if config ''visibility'' = Some (JStr ''public'')
                                              then ''public-read'' else ''private''))
             else options0);
          options2 =
            fold (\<lambda>option_key opts.
                    if \<not> truthy (config option_key) then opts
                    else opts(option_key := config option_key))
                 metaOptions_s3 options1
      in a\<lparr>options := options2\<rparr>)"

definition upload_s3 ::
  "s3adapter \<Rightarrow> s3medium \<Rightarrow> string \<Rightarrow> jsval \<Rightarrow> jsobj
     \<Rightarrow> (err + jsobj) \<times> s3adapter \<times> s3medium" where
  "upload_s3 a m path contents config =
     (let key = applyPathPrefix_s3 a path;
          a' = getOptionsFromConfig_s3 a config;
          acl = (case options a' ''ACL'' of
                   Some v \<Rightarrow> if truthy (Some v) then v else JStr ''private''
                 | None \<Rightarrow> JStr ''private'');
          s3Params =
            [''Body'' \<mapsto> JBuf (text_of contents),
             ''Key'' \<mapsto> JStr key,
             ''Bucket'' \<mapsto> JStr (bucket a'),
             ''ContentLength'' \<mapsto> JNum (of_nat (length (text_of contents))),
             ''ContentType'' \<mapsto> JStr (case mime a' path of
                                        Some t \<Rightarrow> if t = [] then ''application/octet-stream'' else t
                                      | None \<Rightarrow> ''application/octet-stream''),
             ''ACL'' \<mapsto> acl] ++ options a'
      in case send_PutObject m s3Params of
           (Inl e, m') \<Rightarrow> (Inl e, a', m')
         | (Inr u, m') \<Rightarrow>
             (Inr (normalizeResponse_s3 a' (s3Params(''Body'' \<mapsto> contents)) path), a', m'))"

definition write_s3 ::
  "s3adapter \<Rightarrow> s3medium \<Rightarrow> string \<Rightarrow> jsval \<Rightarrow> jsobj
     \<Rightarrow> (err + jsobj) \<times> s3adapter \<times> s3medium" where
  "write_s3 a m path contents config = upload_s3 a m path contents config"

definition update_s3 ::
  "s3adapter \<Rightarrow> s3medium \<Rightarrow> string \<Rightarrow> jsval \<Rightarrow> jsobj
     \<Rightarrow> (err + jsobj) \<times> s3adapter \<times> s3medium" where
  "update_s3 a m path contents config = upload_s3 a m path contents config"

definition createDir_s3 ::
  "s3adapter \<Rightarrow> s3medium \<Rightarrow> string \<Rightarrow> jsobj \<Rightarrow> (err + jsobj) \<times> s3adapter \<times> s3medium" where
  "createDir_s3 a m dirname config = upload_s3 a m (rtrim dirname ''/'' @ ''/'') (JStr []) config"

text \<open>
  An operation typed \<^verbatim>\<open>Promise<any | false>\<close> returns \<open>Inr (Some entry)\<close> for
  an entry, \<open>Inr None\<close> for \<^verbatim>\<open>false\<close>, and \<open>Inl e\<close> when it throws.
\<close>

definition read_s3 :: "s3adapter \<Rightarrow> s3medium \<Rightarrow> string \<Rightarrow> (err + jsobj option) \<times> s3medium" where
  "read_s3 a m path =
     (let key = applyPathPrefix_s3 a path;
          s3Params = [''Key'' \<mapsto> JStr key, ''Bucket'' \<mapsto> JStr (bucket a)] ++ options a
      in case send_GetObject m s3Params of
           (Inl e, m') \<Rightarrow> (Inl e, m')
         | (Inr data, m') \<Rightarrow> (Inr (Some (normalizeResponse_s3 a data path)), m'))"

definition delete_s3 :: "s3adapter \<Rightarrow> s3medium \<Rightarrow> string \<Rightarrow> bool \<times> s3medium" where
  "delete_s3 a m path =
     (let key = applyPathPrefix_s3 a path
      in if ends_with_slash path then (False, m)
         else (case send_DeleteObject m [''Bucket'' \<mapsto> JStr (bucket a), ''Key'' \<mapsto> JStr key] of
                 (Inl e, m') \<Rightarrow> (False, m')
               | (Inr u, m') \<Rightarrow> (True, m')))"

definition doesDirectoryExist_s3 :: "s3adapter \<Rightarrow> s3medium \<Rightarrow> string \<Rightarrow> bool \<times> s3medium" where
  "doesDirectoryExist_s3 a m location =
     (case send_ListObjects m
             [''Bucket'' \<mapsto> JStr (bucket a),
              ''Prefix'' \<mapsto> JStr (rtrim location ''/'' @ ''/''),
              ''MaxKeys'' \<mapsto> JNum 1] of
        (Inl e, m') \<Rightarrow> (False, m')
      | (Inr data, m') \<Rightarrow> (Contents data \<noteq> [] \<or> CommonPrefixes data \<noteq> [], m'))"

definition has_s3 :: "s3adapter \<Rightarrow> s3medium \<Rightarrow> string \<Rightarrow> bool \<times> s3medium" where
  "has_s3 a m path =
     (let key = applyPathPrefix_s3 a path
      in case send_HeadObject m [''Bucket'' \<mapsto> JStr (bucket a), ''Key'' \<mapsto> JStr key] of
           (Inr data, m') \<Rightarrow> (True, m')
         | (Inl e, m') \<Rightarrow> doesDirectoryExist_s3 a m' key)"

definition getMetadata_s3 :: "s3adapter \<Rightarrow> s3medium \<Rightarrow> string \<Rightarrow> (err + jsobj option) \<times> s3medium" where
  "getMetadata_s3 a m path =
     (let key = applyPathPrefix_s3 a path
      in case send_HeadObject m [''Bucket'' \<mapsto> JStr (bucket a), ''Key'' \<mapsto> JStr key] of
           (Inr data, m') \<Rightarrow> (Inr (Some (normalizeResponse_s3 a data path)), m')
         | (Inl e, m') \<Rightarrow> (Inr None, m'))"

definition getSize_s3 :: "s3adapter \<Rightarrow> s3medium \<Rightarrow> string \<Rightarrow> (err + jsobj option) \<times> s3medium" where
  "getSize_s3 a m path = (Inl NotImplemented, m)"

definition getMimetype_s3 :: "s3adapter \<Rightarrow> s3medium \<Rightarrow> string \<Rightarrow> (err + jsobj option) \<times> s3medium" where
  "getMimetype_s3 a m path = (Inl NotImplemented, m)"

definition getTimestamp_s3 :: "s3adapter \<Rightarrow> s3medium \<Rightarrow> string \<Rightarrow> (err + jsobj option) \<times> s3medium" where
  "getTimestamp_s3 a m path = (Inl NotImplemented, m)"

text \<open>The \<^verbatim>\<open>forEach\<close> over the grants: any public read grant makes it public.\<close>

definition is_public_read :: "grant \<Rightarrow> bool" where
  "is_public_read g =
     (case grantee_uri g of
        None \<Rightarrow> False
      | Some uri \<Rightarrow> uri \<noteq> [] \<and> uri = PUBLIC_GRANT_URI \<and> permission g = ''READ'')"

definition getRawVisibility_s3 :: "s3adapter \<Rightarrow> s3medium \<Rightarrow> string \<Rightarrow> string \<times> s3medium" where
  "getRawVisibility_s3 a m path =
     (let key = applyPathPrefix_s3 a path
      in case send_GetObjectAcl m [''Bucket'' \<mapsto> JStr (bucket a), ''Key'' \<mapsto> JStr key] of
           (Inr data_grants, m') \<Rightarrow>
             (fold (\<lambda>g visibility. if is_public_read g then ''public'' else visibility)
                   data_grants ''private'', m')
         | (Inl e, m') \<Rightarrow> (''private'', m'))"

definition getVisibility_s3 :: "s3adapter \<Rightarrow> s3medium \<Rightarrow> string \<Rightarrow> jsobj \<times> s3medium" where
  "getVisibility_s3 a m path =
     (case getRawVisibility_s3 a m path of
        (v, m') \<Rightarrow> ([''visibility'' \<mapsto> JStr v], m'))"

definition setVisibility_s3 ::
  "s3adapter \<Rightarrow> s3medium \<Rightarrow> string \<Rightarrow> string \<Rightarrow> jsobj option \<times> s3medium" where
  "setVisibility_s3 a m path visibility =
     (let key = applyPathPrefix_s3 a path
      in case send_PutObjectAcl m
                [''Bucket'' \<mapsto> JStr (bucket a), ''Key'' \<mapsto> JStr key,
                 ''ACL'' \<mapsto> JStr (if visibility = ''public'' then ''public-read'' else ''private'')] of
           (Inr u, m') \<Rightarrow> (Some [''path'' \<mapsto> JStr path, ''visibility'' \<mapsto> JStr visibility], m')
         | (Inl e, m') \<Rightarrow> (None, m'))"

text \<open>
  \<^verbatim>\<open>copy\<close>: the command's input is built inside the \<^verbatim>\<open>try\<close>; the ACL entry
  awaits \<^verbatim>\<open>getRawVisibility(path)\<close>, and the adapter's options are spread last.
\<close>

definition copy_s3 :: "s3adapter \<Rightarrow> s3medium \<Rightarrow> string \<Rightarrow> string \<Rightarrow> bool \<times> s3medium" where
  "copy_s3 a m path newpath =
     (let key = applyPathPrefix_s3 a newpath
      in case getRawVisibility_s3 a m path of
           (visibility, m1) \<Rightarrow>
             (case send_CopyObject m1
                     ([''Bucket'' \<mapsto> JStr (bucket a),
                       ''Key'' \<mapsto> JStr key,
                       ''CopySource'' \<mapsto> JStr (bucket a @ ''/'' @ applyPathPrefix_s3 a path),
                       ''ACL'' \<mapsto> JStr (if visibility = ''public'' then ''public-read'' else ''private'')]
                      ++ options a) of
                (Inr u, m2) \<Rightarrow> (True, m2)
              | (Inl e, m2) \<Rightarrow> (False, m2)))"

definition rename_s3 :: "s3adapter \<Rightarrow> s3medium \<Rightarrow> string \<Rightarrow> string \<Rightarrow> bool \<times> s3medium" where
  "rename_s3 a m path newpath =
     (case copy_s3 a m path newpath of
        (False, m1) \<Rightarrow> (False, m1)
      | (True, m1) \<Rightarrow> delete_s3 a m1 path)"

text \<open>
  \<^verbatim>\<open>deleteDir\<close>: the \<^verbatim>\<open>do ... while (continuationToken)\<close> loop.  Each round
  lists one page under the prefix, returns \<open>True\<close> at an empty page, deletes the
  page's keys in one batch and goes on with the cursor of the page; anything
  thrown ends it with \<open>False\<close>.
\<close>

definition cursor_entry :: "string option \<Rightarrow> jsobj" where
  "cursor_entry continuationToken =
     (case continuationToken of None \<Rightarrow> Map.empty | Some t \<Rightarrow> [''ContinuationToken'' \<mapsto> JStr t])"

function deleteDir_loop_s3 :: "s3adapter \<Rightarrow> s3medium \<Rightarrow> string \<Rightarrow> string option \<Rightarrow> bool \<times> s3medium" where
  "deleteDir_loop_s3 a m prefix_key continuationToken =
     (case send_ListObjects m
             ([''Bucket'' \<mapsto> JStr (bucket a), ''Prefix'' \<mapsto> JStr prefix_key]
              ++ cursor_entry continuationToken) of
        (Inl e, m1) \<Rightarrow> (False, m1)
      | (Inr listResult, m1) \<Rightarrow>
          if Contents listResult = [] then (True, m1)
          else (case send_DeleteObjects m1 (map (\<lambda>item. str_of (item ''Key'')) (Contents listResult)) of
                  (Inl e, m2) \<Rightarrow> (False, m2)
                | (Inr u, m2) \<Rightarrow>
                    (case NextContinuationToken listResult of
                       None \<Rightarrow> (True, m2)
                     | Some t \<Rightarrow>
                         if t = [] then (True, m2)
                         else deleteDir_loop_s3 a m2 prefix_key (Some t))))"
  by pat_completeness auto
termination
proof (relation "measure (\<lambda>(a, m, prefix_key, continuationToken). length (objects m))")
  show "wf (measure (\<lambda>(a, m, prefix_key, continuationToken). length (objects m)))" by simp
next
  fix a :: s3adapter and m m1 m2 :: s3medium and prefix_key :: string
    and continuationToken :: "string option"
    and x :: "err + list_output" and listResult :: list_output
    and xa :: "err + unit" and u :: unit and t :: string
  assume l: "(x, m1) = send_ListObjects m
             ([''Bucket'' \<mapsto> JStr (bucket a), ''Prefix'' \<mapsto> JStr prefix_key]
              ++ cursor_entry continuationToken)"
    and x: "x = Inr listResult" and ne: "Contents listResult \<noteq> []"
    and d: "(xa, m2) = send_DeleteObjects m1 (map (\<lambda>item. str_of (item ''Key'')) (Contents listResult))"
    and xa: "xa = Inr u"
  let ?params = "[''Bucket'' \<mapsto> JStr (bucket a), ''Prefix'' \<mapsto> JStr prefix_key]
              ++ cursor_entry continuationToken"
  obtain f m0 where tf: "take_fault m = (f, m0)" by (cases "take_fault m")
  have m0: "objects m0 = objects m"
    using tf by (auto simp: take_fault_def split: list.splits)
  obtain found common cursor where lp:
    "list_page m0 (limit_param m0 ?params) (str_of (?params ''Prefix''))
       (truthy (?params ''Delimiter'')) (cursor_param ?params) = (found, common, cursor)"
    by (rule prod_cases3)
  have gen: "set (filter P (take k (sort_key fst (filter Q xs)))) \<subseteq> set xs"
    for P Q k and xs :: "(string \<times> s3object) list"
    using set_take_subset [of k "sort_key fst (filter Q xs)"] by auto
  have page_sub: "set (fst (list_page mm n p dl cu)) \<subseteq> set (objects mm)" for mm n p dl cu
    by (simp only: list_page_def Let_def fst_conv) (rule gen)
  have sub: "set found \<subseteq> set (objects m0)"
    using page_sub [of m0 "limit_param m0 ?params" "str_of (?params ''Prefix'')"
        "truthy (?params ''Delimiter'')" "cursor_param ?params"]
    unfolding lp by (simp only: fst_conv)
  from l x tf lp
  have m1: "m1 = m0" and c: "Contents listResult = map listed_object found"
    unfolding send_ListObjects_def by (cases f; simp)+
  from ne c obtain kv where kv: "kv \<in> set found" by (cases found) auto
  have keys: "map (\<lambda>item. str_of (item ''Key'')) (Contents listResult) = map fst found"
    unfolding c by (simp add: listed_object_def)
  obtain g m3 where tg: "take_fault m1 = (g, m3)" by (cases "take_fault m1")
  have m3: "objects m3 = objects m1"
    using tg by (auto simp: take_fault_def split: list.splits)
  from d xa tg
  have "objects m2 = filter (\<lambda>kv. fst kv \<notin> set (map fst found)) (objects m3)"
    unfolding send_DeleteObjects_def keys by (cases g; simp add: remove_objects_def)
  moreover have "kv \<in> set (objects m3)" using kv sub m3 m1 by auto
  moreover have "\<not> fst kv \<notin> set (map fst found)" using kv by simp
  ultimately have "length (objects m2) < length (objects m3)"
    using length_filter_less [of kv "objects m3" "\<lambda>kv. fst kv \<notin> set (map fst found)"] by simp
  then show "((a, m2, prefix_key, Some t), (a, m, prefix_key, continuationToken))
          \<in> measure (\<lambda>(a, m, prefix_key, continuationToken). length (objects m))"
    using m3 m1 m0 by simp
qed

declare deleteDir_loop_s3.simps [simp del]


definition deleteDir_s3 :: "s3adapter \<Rightarrow> s3medium \<Rightarrow> string \<Rightarrow> bool \<times> s3medium" where
  "deleteDir_s3 a m dirname =
     deleteDir_loop_s3 a m (rtrim (applyPathPrefix_s3 a dirname) ''/'' @ ''/'') None"

section \<open>\<^verbatim>\<open>BunAdapter\<close> (src/adapters/bun.adapter.ts)\<close>

subsection \<open>The calls of Bun's S3 client\<close>

text \<open>
  The same bucket, reached through Bun's client: \<^verbatim>\<open>list\<close>, \<^verbatim>\<open>write\<close>,
  \<^verbatim>\<open>delete\<close>, and on a file handle \<^verbatim>\<open>exists\<close>, \<^verbatim>\<open>stat\<close>, \<^verbatim>\<open>text\<close> and
  \<^verbatim>\<open>arrayBuffer\<close>.  A listing answers with the cursor for the next page in its
  field \<^verbatim>\<open>nextContinuationToken\<close>; its field \<^verbatim>\<open>continuationToken\<close> repeats the
  token the request was sent with, and is absent when the request had none.
  \<^verbatim>\<open>stat\<close> is a \<^verbatim>\<open>HEAD\<close> request, so its \<^verbatim>\<open>lastModified\<close> is a date of whole
  seconds.  A write through this client stores the object with the bucket's
  default ACL, \<^verbatim>\<open>private\<close>.
\<close>

record bun_list_output =
  contents :: "jsobj list"
  commonPrefixes :: "jsobj list"
  continuationToken :: "string option"
  nextContinuationToken :: "string option"

definition bun_listed_object :: "string \<times> s3object \<Rightarrow> jsobj" where
  "bun_listed_object kv =
     [''key'' \<mapsto> JStr (fst kv),
      ''lastModified'' \<mapsto> JDate (obj_modified (snd kv)),
      ''size'' \<mapsto> JNum (of_nat (length (obj_body (snd kv))))]"

definition bun_list ::
  "s3medium \<Rightarrow> string \<Rightarrow> bool \<Rightarrow> string option \<Rightarrow> (err + bun_list_output) \<times> s3medium" where
  "bun_list m pfx delimited cursor =
     (case take_fault m of
        (True, m') \<Rightarrow> (Inl MediumFault, m')
      | (False, m') \<Rightarrow>
          (case list_page m' (maxKeys m') pfx delimited cursor of
             (found, common, next_cursor) \<Rightarrow>
               (Inr \<lparr>contents = map bun_listed_object found,
                     commonPrefixes = map (\<lambda>cp. [''prefix'' \<mapsto> JStr cp]) common,
                     continuationToken = cursor,
                     nextContinuationToken = next_cursor\<rparr>, m')))"

definition bun_write :: "s3medium \<Rightarrow> string \<Rightarrow> jsval \<Rightarrow> jsobj \<Rightarrow> (err + unit) \<times> s3medium" where
  "bun_write m key data opts =
     (case take_fault m of
        (True, m') \<Rightarrow> (Inl MediumFault, m')
      | (False, m') \<Rightarrow>
          (Inr (),
           store_object key
             \<lparr>obj_body = text_of data, obj_modified = clock m',
              obj_acl = ''private'', obj_ctype = str_of (opts ''type'')\<rparr> m'))"

definition bun_delete :: "s3medium \<Rightarrow> string \<Rightarrow> (err + unit) \<times> s3medium" where
  "bun_delete m key =
     (case take_fault m of
        (True, m') \<Rightarrow> (Inl MediumFault, m')
      | (False, m') \<Rightarrow> (Inr (), remove_objects [key] m'))"

definition bun_exists :: "s3medium \<Rightarrow> string \<Rightarrow> (err + bool) \<times> s3medium" where
  "bun_exists m key =
     (case take_fault m of
        (True, m') \<Rightarrow> (Inl MediumFault, m')
      | (False, m') \<Rightarrow> (Inr (lookup_object m' key \<noteq> None), m'))"

definition bun_stat :: "s3medium \<Rightarrow> string \<Rightarrow> (err + jsobj) \<times> s3medium" where
  "bun_stat m key =
     (case take_fault m of
        (True, m') \<Rightarrow> (Inl MediumFault, m')
      | (False, m') \<Rightarrow>
          (case lookup_object m' key of
             None \<Rightarrow> (Inl NoSuchKey, m')
           | Some ob \<Rightarrow>
               (Inr [''size'' \<mapsto> JNum (of_nat (length (obj_body ob))),
                     ''lastModified'' \<mapsto> JDate (http_date (obj_modified ob)),
                     ''type'' \<mapsto> JStr (obj_ctype ob)], m')))"

text \<open>\<^verbatim>\<open>text()\<close> and \<^verbatim>\<open>arrayBuffer()\<close>: the bytes of the object.\<close>

definition bun_text :: "s3medium \<Rightarrow> string \<Rightarrow> (err + string) \<times> s3medium" where
  "bun_text m key =
     (case take_fault m of
        (True, m') \<Rightarrow> (Inl MediumFault, m')
      | (False, m') \<Rightarrow>
          (case lookup_object m' key of
             None \<Rightarrow> (Inl NoSuchKey, m')
           | Some ob \<Rightarrow> (Inr (obj_body ob), m')))"

subsection \<open>The adapter\<close>

record bunadapter =
  bun_bucket :: string
  bun_pathPrefix :: string
  bun_mime :: "string \<Rightarrow> string option"

definition BunAdapter :: "string \<Rightarrow> string \<Rightarrow> (string \<Rightarrow> string option) \<Rightarrow> bunadapter" where
  "BunAdapter bucket_arg prefix_arg mime_arg =
     \<lparr>bun_bucket = bucket_arg, bun_pathPrefix = setPathPrefix prefix_arg, bun_mime = mime_arg\<rparr>"

definition resultMap_bun :: "(string \<times> string) list" where
  "resultMap_bun =
     [(''Body'', ''contents''), (''size'', ''size''), (''type'', ''mimetype''),
      (''lastModified'', ''timestamp'')]"

definition applyPathPrefix_bun :: "bunadapter \<Rightarrow> string \<Rightarrow> string" where
  "applyPathPrefix_bun a path = ltrim (applyPathPrefix (bun_pathPrefix a) path) ''/''"

text \<open>\<^verbatim>\<open>x || y\<close> on property reads.\<close>

definition js_or :: "jsval option \<Rightarrow> jsval option \<Rightarrow> jsval option" where
  "js_or x y = (if truthy x then x else y)"

definition mime_or_default :: "(string \<Rightarrow> string option) \<Rightarrow> string \<Rightarrow> string" where
  "mime_or_default tbl path =
     (case tbl path of
        Some t \<Rightarrow> if t = [] then ''application/octet-stream'' else t
      | None \<Rightarrow> ''application/octet-stream'')"

fun body_to_string_bun :: "jsval \<Rightarrow> jsobj \<Rightarrow> jsobj" where
  "body_to_string_bun (JStr s) response = response(''Body'' \<mapsto> JStr s)"
| "body_to_string_bun (JBuf s) response = response(''Body'' \<mapsto> JStr s)"
| "body_to_string_bun (JBlob s) response = response(''Body'' \<mapsto> JStr s)"
| "body_to_string_bun v response = response"

definition normalizeResponse_bun :: "bunadapter \<Rightarrow> jsobj \<Rightarrow> string \<Rightarrow> jsobj" where
  "normalizeResponse_bun a response path =
     (let p = (if path \<noteq> [] then path
               else removePathPrefix (bun_pathPrefix a)
                      (str_of (js_or (response ''key'') (js_or (response ''Key'') (Some (JStr []))))));
          result0 = [''path'' \<mapsto> JStr p] ++ pathinfo p;
          result1 = (case js_or (response ''lastModified'') (response ''LastModified'') of
                       Some date \<Rightarrow>
                         if truthy (Some date)
                         then result0(''timestamp'' \<mapsto> js_divide (date_getTime date) 1000)
                         else result0
                     | None \<Rightarrow> result0);
          response1 = (case js_or (response ''Body'') (response ''body'') of
                         Some body \<Rightarrow>
                           if truthy (Some body) then body_to_string_bun body response
                           else response
                       | None \<Rightarrow> response)
      in if ends_with_slash p
         then result1(''type'' \<mapsto> JStr ''dir'', ''path'' \<mapsto> JStr (rtrim p ''/''))
         else result1(''type'' \<mapsto> JStr ''file'',
                      ''size'' := js_or (response1 ''size'')
                                   (js_or (response1 ''Size'')
                                     (js_or (response1 ''ContentLength'') (Some (JNum 0)))))
              ++ UtilHelper_map response1 resultMap_bun)"

text \<open>
  \<^verbatim>\<open>listContents\<close>: the \<^verbatim>\<open>do ... while (continuationToken)\<close> loop.  Each round
  lists with the current token, normalises the page's objects and common prefixes
  and appends them to \<open>response\<close>, and takes \<^verbatim>\<open>result.continuationToken\<close> as the
  token of the next round.  The loop need not end (a round with a token gets the
  same token back), so its result is optional; emulation and the filter run on the
  whole list.
\<close>

partial_function (option) listContents_loop_bun ::
  "bunadapter \<Rightarrow> s3medium \<Rightarrow> string \<Rightarrow> bool \<Rightarrow> string option \<Rightarrow> jsobj list
     \<Rightarrow> ((err + jsobj list) \<times> s3medium) option" where
  "listContents_loop_bun a m prefix_key recursive cursor response =
     (case bun_list m prefix_key (\<not> recursive) cursor of
        (Inl e, m1) \<Rightarrow> Some (Inl e, m1)
      | (Inr result, m1) \<Rightarrow>
          (let response1 =
                 response @
                 map (\<lambda>obj. normalizeResponse_bun a obj []) (contents result) @
                 map (\<lambda>prefixObj.
                        normalizeResponse_bun a
                          (\<lambda>k. if k = ''key'' \<or> k = ''Key'' then prefixObj ''prefix'' else None) [])
                     (commonPrefixes result)
           in case continuationToken result of
                None \<Rightarrow> Some (Inr response1, m1)
              | Some t \<Rightarrow>
                  if t = [] then Some (Inr response1, m1)
                  else listContents_loop_bun a m1 prefix_key recursive (Some t) response1))"

declare listContents_loop_bun.simps [code]

definition listContents_bun ::
  "bunadapter \<Rightarrow> s3medium \<Rightarrow> string \<Rightarrow> bool \<Rightarrow> ((err + jsobj list) \<times> s3medium) option" where
  "listContents_bun a m directory recursive =
     (let prefix_key = applyPathPrefix_bun a (rtrim directory ''/'' @ ''/'')
      in case listContents_loop_bun a m prefix_key recursive None [] of
           None \<Rightarrow> None
         | Some (Inl e, m') \<Rightarrow> Some (Inl e, m')
         | Some (Inr response, m') \<Rightarrow>
             Some (Inr (filter (\<lambda>item. rtrim (path_of item) ''/'' \<noteq> rtrim directory ''/'')
                          (emulateDirectories response)), m'))"

text \<open>\<^verbatim>\<open>read\<close>: \<^verbatim>\<open>Promise.all([file.text(), file.stat()])\<close>; both calls are issued.\<close>

definition read_bun :: "bunadapter \<Rightarrow> s3medium \<Rightarrow> string \<Rightarrow> (err + jsobj option) \<times> s3medium" where
  "read_bun a m path =
     (let key = applyPathPrefix_bun a path
      in case bun_text m key of
           (r1, m1) \<Rightarrow>
             (case bun_stat m1 key of
                (r2, m2) \<Rightarrow>
                  (case r1 of
                     Inl e \<Rightarrow> (Inl e, m2)
                   | Inr data \<Rightarrow>
                       (case r2 of
                          Inl e \<Rightarrow> (Inl e, m2)
                        | Inr stats \<Rightarrow>
                            (Inr (Some (normalizeResponse_bun a
                                    (\<lambda>k. if k = ''Body'' then Some (JStr data)
                                         else if k = ''key'' then Some (JStr key)
                                         else if k = ''size'' then stats ''size''
                                         else if k = ''lastModified'' then stats ''lastModified''
                                         else None) path)), m2)))))"

definition getMetadata_bun :: "bunadapter \<Rightarrow> s3medium \<Rightarrow> string \<Rightarrow> (err + jsobj option) \<times> s3medium" where
  "getMetadata_bun a m path =
     (let key = applyPathPrefix_bun a path
      in case bun_exists m key of
           (Inl e, m1) \<Rightarrow> (Inr None, m1)
         | (Inr False, m1) \<Rightarrow> (Inr None, m1)
         | (Inr True, m1) \<Rightarrow>
             (case bun_stat m1 key of
                (Inl e, m2) \<Rightarrow> (Inr None, m2)
              | (Inr stats, m2) \<Rightarrow>
                  (Inr (Some (normalizeResponse_bun a
                          (\<lambda>k. if k = ''key'' then Some (JStr key)
                               else if k = ''size'' then stats ''size''
                               else if k = ''lastModified'' then stats ''lastModified''
                               else if k = ''etag'' then stats ''etag''
                               else None) path)), m2)))"

definition getSize_bun :: "bunadapter \<Rightarrow> s3medium \<Rightarrow> string \<Rightarrow> (err + jsobj option) \<times> s3medium" where
  "getSize_bun a m path =
     (case getMetadata_bun a m path of
        (Inr (Some metadata), m') \<Rightarrow>
          (Inr (Some (\<lambda>k. if k = ''size'' then metadata ''size'' else None)), m')
      | (Inr None, m') \<Rightarrow> (Inr None, m')
      | (Inl e, m') \<Rightarrow> (Inl e, m'))"

definition getMimetype_bun :: "bunadapter \<Rightarrow> s3medium \<Rightarrow> string \<Rightarrow> (err + jsobj option) \<times> s3medium" where
  "getMimetype_bun a m path =
     (case getMetadata_bun a m path of
        (Inr (Some metadata), m') \<Rightarrow>
          (Inr (Some [''mimetype'' \<mapsto> JStr (mime_or_default (bun_mime a) path)]), m')
      | (Inr None, m') \<Rightarrow> (Inr None, m')
      | (Inl e, m') \<Rightarrow> (Inl e, m'))"

definition getTimestamp_bun :: "bunadapter \<Rightarrow> s3medium \<Rightarrow> string \<Rightarrow> (err + jsobj option) \<times> s3medium" where
  "getTimestamp_bun a m path =
     (case getMetadata_bun a m path of
        (Inr (Some metadata), m') \<Rightarrow>
          (Inr (Some (\<lambda>k. if k = ''timestamp'' then metadata ''timestamp'' else None)), m')
      | (Inr None, m') \<Rightarrow> (Inr None, m')
      | (Inl e, m') \<Rightarrow> (Inl e, m'))"

text \<open>\<^verbatim>\<open>getVisibility\<close> asks the medium nothing: the answer is fixed.\<close>

definition getVisibility_bun :: "bunadapter \<Rightarrow> s3medium \<Rightarrow> string \<Rightarrow> jsobj \<times> s3medium" where
  "getVisibility_bun a m path = ([''visibility'' \<mapsto> JStr ''private''], m)"

definition copy_bun :: "bunadapter \<Rightarrow> s3medium \<Rightarrow> string \<Rightarrow> string \<Rightarrow> bool \<times> s3medium" where
  "copy_bun a m path newpath =
     (let key = applyPathPrefix_bun a path;
          newKey = applyPathPrefix_bun a newpath
      in case bun_text m key of
           (Inl e, m1) \<Rightarrow> (False, m1)
         | (Inr data, m1) \<Rightarrow>
             (case bun_write m1 newKey (JBuf data)
                     [''type'' \<mapsto> JStr (mime_or_default (bun_mime a) newpath)] of
                (Inl e, m2) \<Rightarrow> (False, m2)
              | (Inr u, m2) \<Rightarrow> (True, m2)))"

text \<open>
  \<^verbatim>\<open>deleteDir\<close>: as in the S3 adapter, but the page's keys are deleted one call
  each under \<^verbatim>\<open>Promise.all\<close>: every delete is issued, and the round fails when
  any of them threw.  The token of the next round is \<^verbatim>\<open>result.continuationToken\<close>.
\<close>

fun bun_delete_all :: "s3medium \<Rightarrow> string list \<Rightarrow> bool \<times> s3medium" where
  "bun_delete_all m [] = (True, m)"
| "bun_delete_all m (key # keys) =
     (case bun_delete m key of
        (Inl e, m1) \<Rightarrow> (False, snd (bun_delete_all m1 keys))
      | (Inr u, m1) \<Rightarrow> bun_delete_all m1 keys)"

function deleteDir_loop_bun :: "bunadapter \<Rightarrow> s3medium \<Rightarrow> string \<Rightarrow> string option \<Rightarrow> bool \<times> s3medium" where
  "deleteDir_loop_bun a m prefix_key cursor =
     (case bun_list m prefix_key False cursor of
        (Inl e, m1) \<Rightarrow> (False, m1)
      | (Inr result, m1) \<Rightarrow>
          if contents result = [] then (True, m1)
          else (case bun_delete_all m1 (map (\<lambda>obj. str_of (obj ''key'')) (contents result)) of
                  (False, m2) \<Rightarrow> (False, m2)
                | (True, m2) \<Rightarrow>
                    (case continuationToken result of
                       None \<Rightarrow> (True, m2)
                     | Some t \<Rightarrow>
                         if t = [] then (True, m2)
                         else deleteDir_loop_bun a m2 prefix_key (Some t))))"
  by pat_completeness auto
termination
proof (relation "measure (\<lambda>(a, m, prefix_key, cursor). length (objects m))")
  show "wf (measure (\<lambda>(a, m, prefix_key, cursor). length (objects m)))" by simp
next
  fix a :: bunadapter and m m1 m2 :: s3medium and prefix_key :: string
    and cursor :: "string option" and x :: "err + bun_list_output"
    and result :: bun_list_output and ok :: bool and t :: string
  assume l: "(x, m1) = bun_list m prefix_key False cursor"
    and x: "x = Inr result" and ne: "contents result \<noteq> []"
    and d: "(ok, m2) = bun_delete_all m1 (map (\<lambda>obj. str_of (obj ''key'')) (contents result))"
    and ok: "ok = True"
  obtain f m0 where tf: "take_fault m = (f, m0)" by (cases "take_fault m")
  have m0: "objects m0 = objects m"
    using tf by (auto simp: take_fault_def split: list.splits)
  obtain found common next_cursor where lp:
    "list_page m0 (maxKeys m0) prefix_key False cursor = (found, common, next_cursor)"
    by (rule prod_cases3)
  have gen: "set (filter P (take k (sort_key fst (filter Q xs)))) \<subseteq> set xs"
    for P Q k and xs :: "(string \<times> s3object) list"
    using set_take_subset [of k "sort_key fst (filter Q xs)"] by auto
  have page_sub: "set (fst (list_page mm n p dl cu)) \<subseteq> set (objects mm)" for mm n p dl cu
    by (simp only: list_page_def Let_def fst_conv) (rule gen)
  have sub: "set found \<subseteq> set (objects m0)"
    using page_sub [of m0 "maxKeys m0" prefix_key False cursor]
    unfolding lp by (simp only: fst_conv)
  from l x tf lp have m1: "m1 = m0" and c: "contents result = map bun_listed_object found"
    unfolding bun_list_def by (cases f; simp)+
  from ne c obtain kv where kv: "kv \<in> set found" by (cases found) auto
  have keys: "map (\<lambda>obj. str_of (obj ''key'')) (contents result) = map fst found"
    unfolding c by (simp add: bun_listed_object_def)
  have all: "fst (bun_delete_all n ks) \<Longrightarrow>
      objects (snd (bun_delete_all n ks)) = filter (\<lambda>kv. fst kv \<notin> set ks) (objects n)"
    for n ks
  proof (induction ks arbitrary: n)
    case Nil
    then show ?case by simp
  next
    case (Cons k ks)
    obtain g n0 where tg: "take_fault n = (g, n0)" by (cases "take_fault n")
    have n0: "objects n0 = objects n"
      using tg by (auto simp: take_fault_def split: list.splits)
    from Cons.prems tg have g: "g = False"
      by (cases g) (simp_all add: bun_delete_def)
    with tg have step: "bun_delete_all n (k # ks) = bun_delete_all (remove_objects [k] n0) ks"
      by (simp add: bun_delete_def)
    with Cons.prems have "fst (bun_delete_all (remove_objects [k] n0) ks)" by simp
    from Cons.IH [OF this] step n0 show ?case
      by (simp add: remove_objects_def conj_commute)
  qed
  from d ok have "fst (bun_delete_all m1 (map fst found))"
    and m2: "m2 = snd (bun_delete_all m1 (map fst found))"
    unfolding keys by (metis fst_conv, metis snd_conv)
  from all [OF this(1)] m2
  have "objects m2 = filter (\<lambda>kv. fst kv \<notin> set (map fst found)) (objects m1)" by simp
  moreover have "kv \<in> set (objects m1)" using kv sub m1 by auto
  moreover have "\<not> fst kv \<notin> set (map fst found)" using kv by simp
  ultimately have "length (objects m2) < length (objects m1)"
    using length_filter_less [of kv "objects m1" "\<lambda>kv. fst kv \<notin> set (map fst found)"] by simp
  then show "((a, m2, prefix_key, Some t), (a, m, prefix_key, cursor))
          \<in> measure (\<lambda>(a, m, prefix_key, cursor). length (objects m))"
    using m1 m0 by simp
qed

declare deleteDir_loop_bun.simps [simp del]

definition deleteDir_bun :: "bunadapter \<Rightarrow> s3medium \<Rightarrow> string \<Rightarrow> bool \<times> s3medium" where
  "deleteDir_bun a m dirname =
     deleteDir_loop_bun a m (rtrim (applyPathPrefix_bun a dirname) ''/'' @ ''/'') None"

section \<open>The local filesystem behind \<^verbatim>\<open>BunLocalAdapter\<close>\<close>

text \<open>
  The file tree as the \<^verbatim>\<open>node:fs\<close> calls see it: the nodes by their path
  (without a trailing separator), each a regular file with its contents or a
  directory with the size \<^verbatim>\<open>stat\<close> reports for it, with permission bits and
  modification time (milliseconds, possibly fractional).  A path with a trailing
  separator names a directory: it resolves to \<open>ENOTDIR\<close> on a regular file.
  \<open>fs_faults\<close> scripts the failures no tree decides (permission denied, I/O
  error), one flag per call; a failing call changes nothing.
\<close>

datatype fkind = RegularFile string | Directory nat

record fnode =
  node_kind :: fkind
  node_mode :: nat
  node_mtimeMs :: rat

record localfs =
  nodes :: "(string \<times> fnode) list"
  fs_faults :: "bool list"
  fs_now :: rat

definition fs_take_fault :: "localfs \<Rightarrow> bool \<times> localfs" where
  "fs_take_fault fs =
     (case fs_faults fs of [] \<Rightarrow> (False, fs) | f # rest \<Rightarrow> (f, fs\<lparr>fs_faults := rest\<rparr>))"

definition is_directory :: "fnode \<Rightarrow> bool" where
  "is_directory n = (case node_kind n of Directory sz \<Rightarrow> True | RegularFile c \<Rightarrow> False)"

definition fs_find :: "localfs \<Rightarrow> string \<Rightarrow> err + fnode" where
  "fs_find fs p =
     (case map_of (nodes fs) (strip_sep p) of
        None \<Rightarrow> Inl ENOENT
      | Some n \<Rightarrow> if ends_with_slash p \<and> \<not> is_directory n then Inl ENOTDIR else Inr n)"

text \<open>Whether the directory that is to hold \<open>p\<close> exists.\<close>

definition parent_exists :: "localfs \<Rightarrow> string \<Rightarrow> bool" where
  "parent_exists fs p =
     (dirname_of p = [] \<or>
      (case map_of (nodes fs) (dirname_of p) of None \<Rightarrow> False | Some n \<Rightarrow> is_directory n))"

definition below :: "string \<Rightarrow> string \<Rightarrow> bool" where
  "below d k = starts_with (strip_sep d @ ''/'') k"

subsection \<open>The calls of \<^verbatim>\<open>node:fs/promises\<close> and \<^verbatim>\<open>Bun.file\<close>\<close>

definition fs_stat :: "localfs \<Rightarrow> string \<Rightarrow> (err + fnode) \<times> localfs" where
  "fs_stat fs p =
     (case fs_take_fault fs of
        (True, fs') \<Rightarrow> (Inl MediumFault, fs')
      | (False, fs') \<Rightarrow> (fs_find fs' p, fs'))"

definition stat_isFile :: "fnode \<Rightarrow> bool" where
  "stat_isFile n = (\<not> is_directory n)"

definition stat_size :: "fnode \<Rightarrow> nat" where
  "stat_size n = (case node_kind n of RegularFile c \<Rightarrow> length c | Directory sz \<Rightarrow> sz)"

text \<open>\<^verbatim>\<open>access\<close>: succeeds exactly when the path resolves.\<close>

definition fs_access :: "localfs \<Rightarrow> string \<Rightarrow> (err + unit) \<times> localfs" where
  "fs_access fs p =
     (case fs_take_fault fs of
        (True, fs') \<Rightarrow> (Inl MediumFault, fs')
      | (False, fs') \<Rightarrow>
          (case fs_find fs' p of Inl e \<Rightarrow> (Inl e, fs') | Inr n \<Rightarrow> (Inr (), fs')))"

text \<open>\<^verbatim>\<open>unlink\<close>: removes a regular file; a directory is refused.\<close>

definition fs_unlink :: "localfs \<Rightarrow> string \<Rightarrow> (err + unit) \<times> localfs" where
  "fs_unlink fs p =
     (case fs_take_fault fs of
        (True, fs') \<Rightarrow> (Inl MediumFault, fs')
      | (False, fs') \<Rightarrow>
          (case fs_find fs' p of
             Inl e \<Rightarrow> (Inl e, fs')
           | Inr n \<Rightarrow>
               if is_directory n then (Inl EISDIR, fs')
               else (Inr (), fs'\<lparr>nodes := filter (\<lambda>kv. fst kv \<noteq> strip_sep p) (nodes fs')\<rparr>)))"

text \<open>
  \<^verbatim>\<open>rename\<close>: moves a regular file, or a directory with everything below it,
  replacing a regular file (or an empty directory) at the destination.
\<close>

definition move_tree :: "string \<Rightarrow> string \<Rightarrow> (string \<times> fnode) list \<Rightarrow> (string \<times> fnode) list" where
  "move_tree old new ns =
     map (\<lambda>kv. if fst kv = old then (new, snd kv)
               else if below old (fst kv) then (new @ drop (length old) (fst kv), snd kv)
               else kv)
         (filter (\<lambda>kv. fst kv \<noteq> new) ns)"

definition fs_rename :: "localfs \<Rightarrow> string \<Rightarrow> string \<Rightarrow> (err + unit) \<times> localfs" where
  "fs_rename fs old new =
     (case fs_take_fault fs of
        (True, fs') \<Rightarrow> (Inl MediumFault, fs')
      | (False, fs') \<Rightarrow>
          (case fs_find fs' old of
             Inl e \<Rightarrow> (Inl e, fs')
           | Inr n \<Rightarrow>
               if \<not> parent_exists fs' (strip_sep new) then (Inl ENOENT, fs')
               else if strip_sep new = strip_sep old then (Inr (), fs')
               else if is_directory n then
                 (if below old (strip_sep new) then (Inl EINVAL, fs')
                  else (case map_of (nodes fs') (strip_sep new) of
                          None \<Rightarrow>
                            (Inr (), fs'\<lparr>nodes := move_tree (strip_sep old) (strip_sep new) (nodes fs')\<rparr>)
                        | Some d \<Rightarrow>
                            if \<not> is_directory d then (Inl ENOTDIR, fs')
                            else if list_ex (\<lambda>kv. below new (fst kv)) (nodes fs')
                            then (Inl ENOTEMPTY, fs')
                            else (Inr (), fs'\<lparr>nodes := move_tree (strip_sep old) (strip_sep new) (nodes fs')\<rparr>)))
               else
                 (if ends_with_slash new then (Inl ENOTDIR, fs')
                  else (case map_of (nodes fs') new of
                          None \<Rightarrow> (Inr (), fs'\<lparr>nodes := move_tree (strip_sep old) new (nodes fs')\<rparr>)
                        | Some d \<Rightarrow>
                            if is_directory d then (Inl EISDIR, fs')
                            else (Inr (), fs'\<lparr>nodes := move_tree (strip_sep old) new (nodes fs')\<rparr>)))))"

text \<open>\<^verbatim>\<open>copyFile\<close>: copies a regular file; a directory on either side is refused.\<close>

definition fs_copyFile :: "localfs \<Rightarrow> string \<Rightarrow> string \<Rightarrow> (err + unit) \<times> localfs" where
  "fs_copyFile fs src dst =
     (case fs_take_fault fs of
        (True, fs') \<Rightarrow> (Inl MediumFault, fs')
      | (False, fs') \<Rightarrow>
          (case fs_find fs' src of
             Inl e \<Rightarrow> (Inl e, fs')
           | Inr n \<Rightarrow>
               if is_directory n then (Inl EISDIR, fs')
               else if ends_with_slash dst then (Inl EISDIR, fs')
               else if \<not> parent_exists fs' dst then (Inl ENOENT, fs')
               else (case map_of (nodes fs') dst of
                       None \<Rightarrow>
                         (Inr (), fs'\<lparr>nodes := nodes fs' @ [(dst, n\<lparr>node_mtimeMs := fs_now fs'\<rparr>)]\<rparr>)
                     | Some d \<Rightarrow>
                         if is_directory d then (Inl EISDIR, fs')
                         else (Inr (), fs'\<lparr>nodes := filter (\<lambda>kv. fst kv \<noteq> dst) (nodes fs')
                                              @ [(dst, n\<lparr>node_mtimeMs := fs_now fs'\<rparr>)]\<rparr>))))"

text \<open>\<^verbatim>\<open>rm\<close> with \<^verbatim>\<open>recursive\<close> and \<^verbatim>\<open>force\<close>: a missing path is no error.\<close>

definition fs_rm_rf :: "localfs \<Rightarrow> string \<Rightarrow> (err + unit) \<times> localfs" where
  "fs_rm_rf fs p =
     (case fs_take_fault fs of
        (True, fs') \<Rightarrow> (Inl MediumFault, fs')
      | (False, fs') \<Rightarrow>
          (Inr (), fs'\<lparr>nodes := filter (\<lambda>kv. fst kv \<noteq> strip_sep p \<and> \<not> below p (fst kv))
                                  (nodes fs')\<rparr>))"

text \<open>\<^verbatim>\<open>Bun.file(p).exists()\<close> and \<^verbatim>\<open>.text()\<close>; a directory has no text.\<close>

definition bunfile_exists :: "localfs \<Rightarrow> string \<Rightarrow> (err + bool) \<times> localfs" where
  "bunfile_exists fs p =
     (case fs_take_fault fs of
        (True, fs') \<Rightarrow> (Inl MediumFault, fs')
      | (False, fs') \<Rightarrow>
          (case fs_find fs' p of Inl e \<Rightarrow> (Inr False, fs') | Inr n \<Rightarrow> (Inr True, fs')))"

definition bunfile_text :: "localfs \<Rightarrow> string \<Rightarrow> (err + string) \<times> localfs" where
  "bunfile_text fs p =
     (case fs_take_fault fs of
        (True, fs') \<Rightarrow> (Inl MediumFault, fs')
      | (False, fs') \<Rightarrow>
          (case fs_find fs' p of
             Inl e \<Rightarrow> (Inl e, fs')
           | Inr n \<Rightarrow>
               (case node_kind n of
                  Directory sz \<Rightarrow> (Inl EISDIR, fs')
                | RegularFile c \<Rightarrow> (Inr c, fs'))))"

section \<open>\<^verbatim>\<open>BunLocalAdapter\<close> (src/adapters/bun.local.adapter.ts)\<close>

record localadapter =
  local_pathPrefix :: string

definition BunLocalAdapter :: "string \<Rightarrow> localadapter" where
  "BunLocalAdapter root_arg = \<lparr>local_pathPrefix = setPathPrefix root_arg\<rparr>"

definition applyPathPrefix_local :: "localadapter \<Rightarrow> string \<Rightarrow> string" where
  "applyPathPrefix_local a path = applyPathPrefix (local_pathPrefix a) path"

definition isDir_local :: "localadapter \<Rightarrow> localfs \<Rightarrow> string \<Rightarrow> bool \<times> localfs" where
  "isDir_local a fs root_path =
     (case fs_stat fs root_path of
        (Inr statDir, fs') \<Rightarrow> (is_directory statDir, fs')
      | (Inl e, fs') \<Rightarrow> (False, fs'))"

text \<open>\<^verbatim>\<open>Math.round\<close>: to the nearest integer, halves upwards.\<close>

definition Math_round :: "rat \<Rightarrow> int" where
  "Math_round x = \<lfloor>x + 1 / 2\<rfloor>"

definition normalizeResponse_local ::
  "localadapter \<Rightarrow> localfs \<Rightarrow> jsobj \<Rightarrow> string \<Rightarrow> (err + jsobj) \<times> localfs" where
  "normalizeResponse_local a fs response path =
     (let p = (if path \<noteq> [] then path
               else removePathPrefix (local_pathPrefix a) (str_of (response ''path'')));
          result0 = [''path'' \<mapsto> JStr p] ++ pathinfo p
      in case fs_stat fs (applyPathPrefix_local a p) of
           (Inl e, fs') \<Rightarrow> (Inl e, fs')
         | (Inr fileStat, fs') \<Rightarrow>
             (let isFile = stat_isFile fileStat;
                  result1 = result0(''type'' \<mapsto> JStr (if isFile then ''file'' else ''dir''),
                                    ''size'' \<mapsto> JNum (of_nat (stat_size fileStat)),
                                    ''timestamp'' \<mapsto>
                                       JNum (of_int (Math_round (node_mtimeMs fileStat / 1000))))
              in if result1 ''type'' = Some (JStr ''dir'')
                 then (Inr (result1(''path'' \<mapsto> JStr (rtrim p ''/''))), fs')
                 else (Inr (result1(''type'' \<mapsto> JStr ''file'')), fs')))"

definition read_local :: "localadapter \<Rightarrow> localfs \<Rightarrow> string \<Rightarrow> (err + jsobj option) \<times> localfs" where
  "read_local a fs path =
     (let location = applyPathPrefix_local a path
      in case bunfile_exists fs location of
           (Inl e, fs1) \<Rightarrow> (Inr None, fs1)
         | (Inr False, fs1) \<Rightarrow> (Inr None, fs1)
         | (Inr True, fs1) \<Rightarrow>
             (case bunfile_text fs1 location of
                (Inl e, fs2) \<Rightarrow> (Inr None, fs2)
              | (Inr file_contents, fs2) \<Rightarrow>
                  (Inr (Some [''type'' \<mapsto> JStr ''file'', ''path'' \<mapsto> JStr path,
                              ''contents'' \<mapsto> JStr file_contents]), fs2)))"

definition delete_local :: "localadapter \<Rightarrow> localfs \<Rightarrow> string \<Rightarrow> bool \<times> localfs" where
  "delete_local a fs path =
     (let location = applyPathPrefix_local a path
      in case fs_unlink fs location of
           (Inl e, fs') \<Rightarrow> (False, fs')
         | (Inr u, fs') \<Rightarrow> (True, fs'))"

definition has_local :: "localadapter \<Rightarrow> localfs \<Rightarrow> string \<Rightarrow> bool \<times> localfs" where
  "has_local a fs path =
     (let location = applyPathPrefix_local a path
      in case fs_access fs location of
           (Inr u, fs') \<Rightarrow> (True, fs')
         | (Inl e, fs') \<Rightarrow> (False, fs'))"

text \<open>\<^verbatim>\<open>getMetadata\<close> awaits \<^verbatim>\<open>stat\<close> outside any \<^verbatim>\<open>try\<close>.\<close>

definition getMetadata_local ::
  "localadapter \<Rightarrow> localfs \<Rightarrow> string \<Rightarrow> (err + jsobj option) \<times> localfs" where
  "getMetadata_local a fs path =
     (let location = applyPathPrefix_local a path
      in case fs_stat fs location of
           (Inl e, fs') \<Rightarrow> (Inl e, fs')
         | (Inr fileStat, fs') \<Rightarrow>
             (let ts = JNum (of_int (Math_round (node_mtimeMs fileStat / 1000)))
              in if stat_isFile fileStat
                 then (Inr (Some [''type'' \<mapsto> JStr ''file'', ''path'' \<mapsto> JStr path,
                                  ''timestamp'' \<mapsto> ts,
                                  ''size'' \<mapsto> JNum (of_nat (stat_size fileStat))]), fs')
                 else (Inr (Some [''type'' \<mapsto> JStr ''dir'', ''path'' \<mapsto> JStr path,
                                  ''timestamp'' \<mapsto> ts]), fs')))"

definition rename_local :: "localadapter \<Rightarrow> localfs \<Rightarrow> string \<Rightarrow> string \<Rightarrow> bool \<times> localfs" where
  "rename_local a fs path newpath =
     (let location = applyPathPrefix_local a path;
          destination = applyPathPrefix_local a newpath
      in case fs_rename fs location destination of
           (Inl e, fs') \<Rightarrow> (False, fs')
         | (Inr u, fs') \<Rightarrow> (True, fs'))"

definition copy_local :: "localadapter \<Rightarrow> localfs \<Rightarrow> string \<Rightarrow> string \<Rightarrow> bool \<times> localfs" where
  "copy_local a fs path newpath =
     (let location = applyPathPrefix_local a path;
          destination = applyPathPrefix_local a newpath
      in case fs_copyFile fs location destination of
           (Inl e, fs') \<Rightarrow> (False, fs')
         | (Inr u, fs') \<Rightarrow> (True, fs'))"

definition deleteDir_local :: "localadapter \<Rightarrow> localfs \<Rightarrow> string \<Rightarrow> bool \<times> localfs" where
  "deleteDir_local a fs path =
     (let location = applyPathPrefix_local a path
      in case isDir_local a fs location of
           (False, fs1) \<Rightarrow> (False, fs1)
         | (True, fs1) \<Rightarrow>
             (case fs_rm_rf fs1 location of
                (Inl e, fs2) \<Rightarrow> (False, fs2)
              | (Inr u, fs2) \<Rightarrow> (True, fs2)))"

section \<open>Example states\<close>

text \<open>
  Small concrete adapters and media on which the theorems below are evaluated: an
  S3 adapter and a Bun adapter rooted at \<^verbatim>\<open>unittest\<close> without options, a bucket
  with the objects of the test suite, and a local tree under \<^verbatim>\<open>/srv/files\<close>.
\<close>

definition no_mime :: "string \<Rightarrow> string option" where
  "no_mime p = None"

definition example_s3 :: s3adapter where
  "example_s3 = S3Adapter ''bucket'' ''unittest'' Map.empty no_mime"

definition example_bun :: bunadapter where
  "example_bun = BunAdapter ''bucket'' ''unittest'' no_mime"

definition example_object :: "string \<Rightarrow> string \<Rightarrow> s3object" where
  "example_object body acl =
     \<lparr>obj_body = body, obj_modified = 1570902630500, obj_acl = acl, obj_ctype = ''text/plain''\<rparr>"

definition example_bucket :: s3medium where
  "example_bucket =
     \<lparr>objects = [(''unittest/test/1.txt'', example_object ''test'' ''private''),
                 (''unittest/a/b/c.txt'', example_object ''c'' ''public-read''),
                 (''unittest/a/x.txt'', example_object ''x'' ''private''),
                 (''unittest/a/b/d/e.txt'', example_object ''e'' ''private'')],
      faults = [], clock = 1570902640000, maxKeys = 2\<rparr>"

text \<open>A bucket whose listing of \<^verbatim>\<open>unittest/a/\<close> takes two pages of two keys.\<close>

definition crowded_bucket :: s3medium where
  "crowded_bucket =
     \<lparr>objects = [(''unittest/a/b/c.txt'', example_object ''c'' ''private''),
                 (''unittest/a/1.txt'', example_object ''1'' ''private''),
                 (''unittest/a/2.txt'', example_object ''2'' ''private'')],
      faults = [], clock = 1570902640000, maxKeys = 2\<rparr>"

definition empty_bucket :: s3medium where
  "empty_bucket = \<lparr>objects = [], faults = [], clock = 1570902640000, maxKeys = 1000\<rparr>"

definition example_local :: localadapter where
  "example_local = BunLocalAdapter ''/srv/files''"

definition example_tree :: localfs where
  "example_tree =
     \<lparr>nodes = [(''/srv/files'', \<lparr>node_kind = Directory 64, node_mode = 493, node_mtimeMs = 1570902630123\<rparr>),
               (''/srv/files/test2'', \<lparr>node_kind = Directory 64, node_mode = 493, node_mtimeMs = 1570902630123\<rparr>),
               (''/srv/files/test2/test31'', \<lparr>node_kind = Directory 64, node_mode = 493, node_mtimeMs = 1570902630123\<rparr>),
               (''/srv/files/test2/test.txt'', \<lparr>node_kind = RegularFile ''test'', node_mode = 420, node_mtimeMs = 1570902630500\<rparr>)],
      fs_faults = [], fs_now = 1570902640000\<rparr>"

text \<open>An S3 adapter constructed with an ACL among its options.\<close>

definition example_s3_public :: s3adapter where
  "example_s3_public = S3Adapter ''bucket'' ''unittest'' [''ACL'' \<mapsto> JStr ''public-read''] no_mime"

text \<open>The objects a listing of \<open>pfx\<close> after \<open>cursor\<close> selects.\<close>

definition selected :: "string \<Rightarrow> string option \<Rightarrow> string \<times> s3object \<Rightarrow> bool" where
  "selected pfx cursor kv =
     (starts_with pfx (fst kv) \<and> (case cursor of None \<Rightarrow> True | Some t \<Rightarrow> t < fst kv))"

text \<open>
  An entry as the normaliser and the emulator build them: its path is a string, and
  its \<open>dirname\<close> is derived from that path.
\<close>

definition well_formed_entry :: "jsobj \<Rightarrow> bool" where
  "well_formed_entry e =
     (e ''path'' = Some (JStr (path_of e)) \<and>
      e ''dirname'' = Some (JStr (dirname_of (path_of e))))"

text \<open>Whether a timestamp is a whole number of seconds.\<close>

definition whole_seconds :: "jsval option \<Rightarrow> bool" where
  "whole_seconds t = (case t of Some (JNum q) \<Rightarrow> q = of_int \<lfloor>q\<rfloor> | _ \<Rightarrow> False)"

section \<open>Verified properties\<close>

subsection \<open>Facts about the media\<close>

lemma take_fault_cases:
  "take_fault m = (f, m') \<Longrightarrow>
     objects m' = objects m \<and> clock m' = clock m \<and> maxKeys m' = maxKeys m"
  by (auto simp: take_fault_def split: list.splits)

lemma take_fault_frame: "snd (take_fault m)\<lparr>faults := fl\<rparr> = m\<lparr>faults := fl\<rparr>"
  by (auto simp: take_fault_def split: list.splits)

lemma take_fault_no_faults: "faults m = [] \<Longrightarrow> take_fault m = (False, m)"
  by (simp add: take_fault_def)

lemma fs_take_fault_cases:
  "fs_take_fault fs = (f, fs') \<Longrightarrow> nodes fs' = nodes fs \<and> fs_now fs' = fs_now fs"
  by (auto simp: fs_take_fault_def split: list.splits)

lemma fs_take_fault_frame: "snd (fs_take_fault fs)\<lparr>fs_faults := fl\<rparr> = fs\<lparr>fs_faults := fl\<rparr>"
  by (auto simp: fs_take_fault_def split: list.splits)

lemma fs_find_fault_free: "nodes fs' = nodes fs \<Longrightarrow> fs_find fs' p = fs_find fs p"
  by (simp add: fs_find_def)

lemma map_of_filter_other:
  "map_of (filter (\<lambda>kv. fst kv \<noteq> k) xs) k = None"
  by (induction xs) auto

lemma last_dropWhile: "dropWhile P xs \<noteq> [] \<Longrightarrow> last (dropWhile P xs) = last xs"
  by (induction xs) (auto split: if_splits)

lemma local_location_ends_with_slash:
  assumes "r \<noteq> []" and "ends_with_slash path"
  shows "ends_with_slash (applyPathPrefix_local (BunLocalAdapter r) path)"
proof (cases "dropWhile (\<lambda>c. c = CHR ''/'') path = []")
  case True
  then show ?thesis using assms
    by (simp add: ends_with_slash_def applyPathPrefix_local_def applyPathPrefix_def
          BunLocalAdapter_def setPathPrefix_def)
next
  case False
  then show ?thesis using assms last_dropWhile [OF False]
    by (simp add: ends_with_slash_def applyPathPrefix_local_def applyPathPrefix_def)
qed

lemma fs_unlink_dir_path:
  assumes "ends_with_slash p"
  shows "\<exists>e fs'. fs_unlink fs p = (Inl e, fs') \<and> nodes fs' = nodes fs"
proof -
  obtain f fs' where tf: "fs_take_fault fs = (f, fs')" by (cases "fs_take_fault fs")
  then have n: "nodes fs' = nodes fs" by (simp add: fs_take_fault_cases)
  show ?thesis
    using assms tf n
    by (cases f) (auto simp: fs_unlink_def fs_find_def split: option.splits)
qed

lemma send_GetObjectAcl_frame:
  "snd (send_GetObjectAcl m params)\<lparr>faults := fl\<rparr> = m\<lparr>faults := fl\<rparr>"
proof -
  obtain f m' where tf: "take_fault m = (f, m')" by (cases "take_fault m")
  with take_fault_frame [where m = m and fl = fl] have "m'\<lparr>faults := fl\<rparr> = m\<lparr>faults := fl\<rparr>" by simp
  with tf show ?thesis
    by (cases f) (simp_all add: send_GetObjectAcl_def split: option.splits)
qed

lemma getRawVisibility_s3_frame:
  "snd (getRawVisibility_s3 a m p)\<lparr>faults := fl\<rparr> = m\<lparr>faults := fl\<rparr>"
  using send_GetObjectAcl_frame
    [where m = m and fl = fl
       and params = "[''Bucket'' \<mapsto> JStr (bucket a), ''Key'' \<mapsto> JStr (applyPathPrefix_s3 a p)]"]
  by (cases "send_GetObjectAcl m [''Bucket'' \<mapsto> JStr (bucket a), ''Key'' \<mapsto> JStr (applyPathPrefix_s3 a p)]")
     (auto simp: getRawVisibility_s3_def Let_def split: sum.splits)

lemma send_CopyObject_fail_frame:
  assumes "fst (send_CopyObject m params) = Inl e"
  shows "snd (send_CopyObject m params)\<lparr>faults := fl\<rparr> = m\<lparr>faults := fl\<rparr>"
proof -
  obtain f m' where tf: "take_fault m = (f, m')" by (cases "take_fault m")
  with take_fault_frame [where m = m and fl = fl] have "m'\<lparr>faults := fl\<rparr> = m\<lparr>faults := fl\<rparr>" by simp
  with tf assms show ?thesis
    by (cases f) (auto simp: send_CopyObject_def split: option.splits)
qed

lemma copy_s3_fail_frame:
  assumes "\<not> fst (copy_s3 a m p q)"
  shows "snd (copy_s3 a m p q)\<lparr>faults := fl\<rparr> = m\<lparr>faults := fl\<rparr>"
proof -
  obtain v m1 where v: "getRawVisibility_s3 a m p = (v, m1)"
    by (cases "getRawVisibility_s3 a m p")
  with getRawVisibility_s3_frame [where a = a and m = m and p = p and fl = fl]
  have m1: "m1\<lparr>faults := fl\<rparr> = m\<lparr>faults := fl\<rparr>" by simp
  let ?ps = "[''Bucket'' \<mapsto> JStr (bucket a),
              ''Key'' \<mapsto> JStr (applyPathPrefix_s3 a q),
              ''CopySource'' \<mapsto> JStr (bucket a @ ''/'' @ applyPathPrefix_s3 a p),
              ''ACL'' \<mapsto> JStr (if v = ''public'' then ''public-read'' else ''private'')]
             ++ options a"
  obtain r m2 where c: "send_CopyObject m1 ?ps = (r, m2)" by (cases "send_CopyObject m1 ?ps")
  from assms v c obtain e where "r = Inl e"
    by (cases r) (simp_all add: copy_s3_def Let_def)
  with c send_CopyObject_fail_frame [where m = m1 and params = ?ps and e = e and fl = fl]
  have "m2\<lparr>faults := fl\<rparr> = m1\<lparr>faults := fl\<rparr>" by simp
  with m1 v c show ?thesis by (simp add: copy_s3_def Let_def split: sum.splits)
qed

lemma fs_rename_fail_frame:
  assumes "fst (fs_rename fs old new) = Inl e"
  shows "snd (fs_rename fs old new)\<lparr>fs_faults := fl\<rparr> = fs\<lparr>fs_faults := fl\<rparr>"
proof -
  obtain f fs' where tf: "fs_take_fault fs = (f, fs')" by (cases "fs_take_fault fs")
  with fs_take_fault_frame [where fs = fs and fl = fl] have "fs'\<lparr>fs_faults := fl\<rparr> = fs\<lparr>fs_faults := fl\<rparr>" by simp
  with tf assms show ?thesis
    by (cases f) (auto simp: fs_rename_def split: option.splits sum.splits if_splits)
qed


lemma delete_s3_unfold:
  "\<not> ends_with_slash path \<Longrightarrow>
     delete_s3 a m path =
       (if fst (take_fault m) then (False, snd (take_fault m))
        else (True, remove_objects [applyPathPrefix_s3 a path] (snd (take_fault m))))"
  by (cases "take_fault m") (simp add: delete_s3_def send_DeleteObject_def)

lemma lookup_after_remove: "lookup_object (remove_objects [k] m) k = None"
  by (simp add: lookup_object_def remove_objects_def map_of_filter_other)

lemma visibility_of_grants:
  "fold (\<lambda>g visibility. if is_public_read g then ''public'' else visibility)
        (grants_of acl) ''private''
   = (if acl = ''public-read'' \<or> acl = ''public-read-write'' then ''public'' else ''private'')"
  by (simp add: grants_of_def is_public_read_def PUBLIC_GRANT_URI_def)

lemma getRawVisibility_s3_no_faults:
  "faults m = [] \<Longrightarrow>
     getRawVisibility_s3 a m p =
       (case lookup_object m (applyPathPrefix_s3 a p) of
          None \<Rightarrow> ''private''
        | Some ob \<Rightarrow> if obj_acl ob = ''public-read'' \<or> obj_acl ob = ''public-read-write''
                     then ''public'' else ''private'', m)"
  by (simp add: getRawVisibility_s3_def send_GetObjectAcl_def take_fault_no_faults
        visibility_of_grants split: option.splits)

lemma lookup_after_store: "lookup_object (store_object k ob m) k = Some ob"
  by (simp add: lookup_object_def store_object_def map_of_filter_other map_add_def
        map_add_Some_iff)

lemma faults_after_store: "faults (store_object k ob m) = faults m"
  by (simp add: store_object_def)


lemma copy_s3_no_faults:
  assumes "faults m = []" and "options a ''Key'' = None"
    and "options a ''CopySource'' = None" and "options a ''Bucket'' = None"
  shows "copy_s3 a m p q =
     (case lookup_object m (applyPathPrefix_s3 a p) of
        None \<Rightarrow> (False, m)
      | Some ob \<Rightarrow>
          (True, store_object (applyPathPrefix_s3 a q)
                   (ob\<lparr>obj_modified := clock m,
                       obj_acl := str_of (([''ACL'' \<mapsto> JStr (if fst (getRawVisibility_s3 a m p) = ''public''
                                                              then ''public-read'' else ''private'')]
                                           ++ options a) ''ACL'')\<rparr>) m))"
  using assms
  by (simp add: copy_s3_def getRawVisibility_s3_no_faults send_CopyObject_def
        take_fault_no_faults map_add_def split: option.splits)

lemma getMetadata_s3_no_faults:
  "faults m = [] \<Longrightarrow>
     getMetadata_s3 a m path =
       (case lookup_object m (applyPathPrefix_s3 a path) of
          None \<Rightarrow> (Inr None, m)
        | Some ob \<Rightarrow> (Inr (Some (normalizeResponse_s3 a (head_of ob) path)), m))"
  by (simp add: getMetadata_s3_def send_HeadObject_def take_fault_no_faults split: option.splits)

lemma getMetadata_bun_no_faults:
  "faults m = [] \<Longrightarrow>
     getMetadata_bun b m path =
       (case lookup_object m (applyPathPrefix_bun b path) of
          None \<Rightarrow> (Inr None, m)
        | Some ob \<Rightarrow>
            (Inr (Some (normalizeResponse_bun b
                    (\<lambda>k. if k = ''key'' then Some (JStr (applyPathPrefix_bun b path))
                         else if k = ''size'' then Some (JNum (of_nat (length (obj_body ob))))
                         else if k = ''lastModified''
                         then Some (JDate (http_date (obj_modified ob)))
                         else None) path)), m))"
  by (auto simp: getMetadata_bun_def bun_exists_def bun_stat_def take_fault_no_faults Let_def
           split: option.splits intro!: arg_cong [where f = "\<lambda>r. normalizeResponse_bun b r path"])

lemma file_entry_s3:
  assumes "\<not> ends_with_slash path" and "path \<noteq> []"
  shows "normalizeResponse_s3 a (head_of ob) path ''path'' = Some (JStr path)"
    and "normalizeResponse_s3 a (head_of ob) path ''type'' = Some (JStr ''file'')"
    and "normalizeResponse_s3 a (head_of ob) path ''size'' = Some (JNum (of_nat (length (obj_body ob))))"
    and "normalizeResponse_s3 a (head_of ob) path ''timestamp'' = Some (JNum (of_int (obj_modified ob div 1000)))"
    and "normalizeResponse_s3 a (head_of ob) path ''mimetype'' = Some (JStr (obj_ctype ob))"
  using assms
  by (simp_all add: normalizeResponse_s3_def head_of_def http_date_def Let_def pathinfo_def
        UtilHelper_map_def resultMap_s3_def map_add_def)

lemma file_entry_bun:
  assumes "\<not> ends_with_slash path" and "path \<noteq> []"
  shows "normalizeResponse_bun b
           (\<lambda>k. if k = ''key'' then Some (JStr key)
                else if k = ''size'' then Some (JNum (of_nat n))
                else if k = ''lastModified'' then Some (JDate ms)
                else None) path ''path'' = Some (JStr path)"
    and "normalizeResponse_bun b
           (\<lambda>k. if k = ''key'' then Some (JStr key)
                else if k = ''size'' then Some (JNum (of_nat n))
                else if k = ''lastModified'' then Some (JDate ms)
                else None) path ''type'' = Some (JStr ''file'')"
    and "normalizeResponse_bun b
           (\<lambda>k. if k = ''key'' then Some (JStr key)
                else if k = ''size'' then Some (JNum (of_nat n))
                else if k = ''lastModified'' then Some (JDate ms)
                else None) path ''size'' = Some (JNum (of_nat n))"
  using assms
  by (simp_all add: normalizeResponse_bun_def Let_def pathinfo_def UtilHelper_map_def
        resultMap_bun_def map_add_def js_or_def)

lemma page_length_plain: "page_length n (\<lambda>k. None) seen ks = min n (length ks)"
  by (induction ks arbitrary: n) auto

lemma list_page_plain:
  "list_page m n pfx False cursor =
     (take n (sort_key fst (filter (selected pfx cursor) (objects m))), [],
      if n < length (filter (selected pfx cursor) (objects m)) \<and>
         take n (sort_key fst (filter (selected pfx cursor) (objects m))) \<noteq> []
      then Some (fst (last (take n (sort_key fst (filter (selected pfx cursor) (objects m))))))
      else None)"
proof -
  have "(\<lambda>kv. starts_with pfx (fst kv) \<and> (case cursor of None \<Rightarrow> True | Some t \<Rightarrow> t < fst kv))
        = selected pfx cursor"
    by (rule ext) (simp add: selected_def)
  moreover have "rollup pfx False = (\<lambda>k. None)"
    by (rule ext) (simp add: rollup_def)
  ultimately show ?thesis
    by (simp add: list_page_def Let_def page_length_plain map_filter_def min_def)
qed

lemma selected_key: "fst kv = fst kv' \<Longrightarrow> selected pfx cursor kv = selected pfx cursor kv'"
  by (simp add: selected_def split: option.splits)

lemma selected_by_key:
  assumes "kv \<in> set xs"
  shows "selected pfx cursor kv \<longleftrightarrow> fst kv \<in> fst ` set (filter (selected pfx cursor) xs)"
proof
  assume "selected pfx cursor kv"
  with assms show "fst kv \<in> fst ` set (filter (selected pfx cursor) xs)" by force
next
  assume "fst kv \<in> fst ` set (filter (selected pfx cursor) xs)"
  then obtain kv' where "kv' \<in> set xs" "selected pfx cursor kv'" "fst kv = fst kv'" by auto
  then show "selected pfx cursor kv" using selected_key by blast
qed

text \<open>What is selected and not on the first page lies after the page's last key.\<close>

lemma beyond_page:
  assumes kv: "kv \<in> set sel" and out: "fst kv \<notin> fst ` set (take n (sort_key fst sel))"
    and ne: "take n (sort_key fst sel) \<noteq> []"
  shows "fst (last (take n (sort_key fst sel))) < fst kv"
proof -
  let ?found = "sort_key fst sel"
  have "sorted (map fst ?found)" by (rule sorted_sort_key)
  then have s: "sorted (map fst (take n ?found @ drop n ?found))" by simp
  have "set (take n ?found) \<union> set (drop n ?found) = set ?found"
    by (metis append_take_drop_id set_append)
  with kv have "kv \<in> set (take n ?found) \<or> kv \<in> set (drop n ?found)" by auto
  with out have d: "kv \<in> set (drop n ?found)" by force
  from ne have l: "last (take n ?found) \<in> set (take n ?found)" by simp
  from s l d have "fst (last (take n ?found)) \<le> fst kv"
    by (auto simp: sorted_append simp del: append_take_drop_id)
  moreover have "fst (last (take n ?found)) \<noteq> fst kv"
  proof
    assume "fst (last (take n ?found)) = fst kv"
    with l have "fst kv \<in> fst ` set (take n ?found)" by (metis imageI)
    with out show False by simp
  qed
  ultimately show ?thesis by simp
qed


lemma page_removal_then_rest:
  assumes ne: "take n (sort_key fst (filter (selected pfx c) objs)) \<noteq> []"
  shows "filter (\<lambda>kv. \<not> selected pfx
                        (Some (fst (last (take n (sort_key fst (filter (selected pfx c) objs)))))) kv)
           (filter (\<lambda>kv. fst kv \<notin> fst ` set (take n (sort_key fst (filter (selected pfx c) objs)))) objs)
         = filter (\<lambda>kv. \<not> selected pfx c kv) objs"
proof -
  let ?sel = "filter (selected pfx c) objs"
  let ?page = "take n (sort_key fst ?sel)"
  let ?t = "fst (last ?page)"
  from ne have "last ?page \<in> set ?page" by simp
  then have "last ?page \<in> set (sort_key fst ?sel)" by (rule in_set_takeD)
  then have lt: "selected pfx c (last ?page)" by simp
  have page_sel: "kv' \<in> set ?page \<Longrightarrow> selected pfx c kv'" for kv'
    using in_set_takeD [of kv' n "sort_key fst ?sel"] by simp
  have eq: "(fst kv \<notin> fst ` set ?page \<and> \<not> selected pfx (Some ?t) kv) = (\<not> selected pfx c kv)"
    if kv: "kv \<in> set objs" for kv
  proof
    assume a: "fst kv \<notin> fst ` set ?page \<and> \<not> selected pfx (Some ?t) kv"
    show "\<not> selected pfx c kv"
    proof
      assume sc: "selected pfx c kv"
      with kv have "kv \<in> set ?sel" by simp
      from beyond_page [OF this _ ne] a have "?t < fst kv" by simp
      with sc have "selected pfx (Some ?t) kv" by (simp add: selected_def)
      with a show False by simp
    qed
  next
    assume n: "\<not> selected pfx c kv"
    have "fst kv \<notin> fst ` set ?page"
    proof
      assume "fst kv \<in> fst ` set ?page"
      then obtain kv' where k: "kv' \<in> set ?page" and e: "fst kv = fst kv'" by auto
      from page_sel [OF k] have "selected pfx c kv'" .
      then have "selected pfx c kv" by (simp only: selected_key [OF e])
      with n show False by simp
    qed
    moreover have "\<not> selected pfx (Some ?t) kv"
    proof
      assume "selected pfx (Some ?t) kv"
      with lt have "selected pfx c kv"
        by (cases c) (simp_all add: selected_def, metis less_trans)
      with n show False by simp
    qed
    ultimately show "fst kv \<notin> fst ` set ?page \<and> \<not> selected pfx (Some ?t) kv" by simp
  qed
  show ?thesis
    unfolding filter_filter by (rule filter_cong [OF refl]) (simp only: eq)
qed

lemma whole_removal:
  "filter (\<lambda>kv. fst kv \<notin> fst ` set (sort_key fst (filter (selected pfx c) objs))) objs
     = filter (\<lambda>kv. \<not> selected pfx c kv) objs"
proof -
  have eq: "(fst kv \<notin> fst ` set (sort_key fst (filter (selected pfx c) objs))) = (\<not> selected pfx c kv)"
    if "kv \<in> set objs" for kv
    using selected_by_key [OF that, of pfx c] by simp
  show ?thesis
    by (rule filter_cong [OF refl]) (simp only: eq)
qed


lemma cursor_entry_params:
  "cursor_param ([''Bucket'' \<mapsto> JStr bk, ''Prefix'' \<mapsto> JStr pfx] ++ cursor_entry cursor) = cursor"
  "limit_param m ([''Bucket'' \<mapsto> JStr bk, ''Prefix'' \<mapsto> JStr pfx] ++ cursor_entry cursor) = maxKeys m"
  "str_of (([''Bucket'' \<mapsto> JStr bk, ''Prefix'' \<mapsto> JStr pfx] ++ cursor_entry cursor) ''Prefix'') = pfx"
  "truthy (([''Bucket'' \<mapsto> JStr bk, ''Prefix'' \<mapsto> JStr pfx] ++ cursor_entry cursor) ''Delimiter'') = False"
  by (cases cursor; simp add: cursor_param_def limit_param_def cursor_entry_def map_add_def)+

lemma list_step_s3:
  assumes "faults m = []"
  shows "send_ListObjects m ([''Bucket'' \<mapsto> JStr bk, ''Prefix'' \<mapsto> JStr pfx] ++ cursor_entry cursor) =
    (Inr \<lparr>Contents = map listed_object
                         (take (maxKeys m) (sort_key fst (filter (selected pfx cursor) (objects m)))),
          CommonPrefixes = [],
          NextContinuationToken =
            (if maxKeys m < length (filter (selected pfx cursor) (objects m)) \<and>
                take (maxKeys m) (sort_key fst (filter (selected pfx cursor) (objects m))) \<noteq> []
             then Some (fst (last (take (maxKeys m)
                                     (sort_key fst (filter (selected pfx cursor) (objects m))))))
             else None)\<rparr>, m)"
  unfolding send_ListObjects_def take_fault_no_faults [OF assms] cursor_entry_params list_page_plain
  by simp

lemma delete_step_s3:
  assumes "faults m = []"
  shows "send_DeleteObjects m (map (\<lambda>item. str_of (item ''Key'')) (map listed_object page))
           = (Inr (), remove_objects (map fst page) m)"
proof -
  have "map (\<lambda>item. str_of (item ''Key'')) (map listed_object page) = map fst page"
    by (simp add: listed_object_def)
  then show ?thesis
    unfolding send_DeleteObjects_def take_fault_no_faults [OF assms] by (simp only: prod.case bool.case)
qed

lemma deleteDir_loop_s3_no_faults:
  "faults m = [] \<Longrightarrow> 0 < maxKeys m \<Longrightarrow> pfx \<noteq> [] \<Longrightarrow>
   deleteDir_loop_s3 a m pfx cursor =
     (True, m\<lparr>objects := filter (\<lambda>kv. \<not> selected pfx cursor kv) (objects m)\<rparr>)"
proof (induction a m pfx cursor rule: deleteDir_loop_s3.induct)
  case (1 a m pfx cursor)
  let ?sel = "filter (selected pfx cursor) (objects m)"
  let ?page = "take (maxKeys m) (sort_key fst ?sel)"
  let ?params = "[''Bucket'' \<mapsto> JStr (bucket a), ''Prefix'' \<mapsto> JStr pfx] ++ cursor_entry cursor"
  define nxt where "nxt = (if maxKeys m < length ?sel \<and> ?page \<noteq> [] then Some (fst (last ?page)) else None)"
  define result where "result = \<lparr>Contents = map listed_object ?page, CommonPrefixes = [],
                  NextContinuationToken = nxt\<rparr>"
  define m2 where "m2 = remove_objects (map fst ?page) m"
  have nf: "faults m = []" and mk: "0 < maxKeys m" and pn: "pfx \<noteq> []"
    using "1.prems" by simp_all
  have step: "send_ListObjects m ?params = (Inr result, m)"
    unfolding result_def nxt_def by (rule list_step_s3 [OF nf])
  have c: "Contents result = map listed_object ?page" by (simp add: result_def)
  have del: "send_DeleteObjects m (map (\<lambda>item. str_of (item ''Key'')) (Contents result))
      = (Inr (), m2)"
    unfolding c m2_def by (rule delete_step_s3 [OF nf])
  have nx: "NextContinuationToken result = nxt" by (simp add: result_def)
  have o2: "objects m2 = filter (\<lambda>kv. fst kv \<notin> fst ` set ?page) (objects m)"
    by (simp add: m2_def remove_objects_def)
  have m2: "m2 = m\<lparr>objects := objects m2\<rparr>"
    by (simp add: m2_def remove_objects_def)
  have m2u: "m2\<lparr>objects := X\<rparr> = m\<lparr>objects := X\<rparr>" for X
    by (simp add: m2_def remove_objects_def)
  show ?case
  proof (cases "?page = []")
    case True
    with mk have "sort_key fst ?sel = []" by (simp add: take_eq_Nil)
    then have "length ?sel = 0" by (metis length_sort list.size(3))
    then have "?sel = []" by simp
    then have "filter (\<lambda>kv. \<not> selected pfx cursor kv) (objects m) = objects m"
      by (simp add: filter_empty_conv filter_id_conv)
    moreover have "Contents result = []" using True c by simp
    then have "deleteDir_loop_s3 a m pfx cursor = (True, m)"
      by (subst deleteDir_loop_s3.simps) (simp add: step)
    ultimately show ?thesis by simp
  next
    case False
    then have cne: "Contents result \<noteq> []" using c by simp
    have f2: "faults m2 = []" and mk2: "0 < maxKeys m2"
      using nf mk by (simp_all add: m2_def remove_objects_def)
    show ?thesis
    proof (cases "maxKeys m < length ?sel")
      case short: False
      then have whole: "?page = sort_key fst ?sel" by simp
      have nn: "nxt = None" using short by (simp add: nxt_def)
      have "deleteDir_loop_s3 a m pfx cursor = (True, m2)"
        by (subst deleteDir_loop_s3.simps) (simp add: step del cne nx nn)
      moreover have "objects m2 = filter (\<lambda>kv. \<not> selected pfx cursor kv) (objects m)"
        unfolding o2 whole by (rule whole_removal)
      ultimately show ?thesis using m2 by simp
    next
      case more: True
      let ?t = "fst (last ?page)"
      have nn: "nxt = Some ?t" using more False by (simp add: nxt_def)
      from False have "last ?page \<in> set ?page" by simp
      then have "last ?page \<in> set (sort_key fst ?sel)" by (rule in_set_takeD)
      then have "selected pfx cursor (last ?page)" by simp
      with pn have tne: "?t \<noteq> []"
        by (auto simp: selected_def starts_with_def)
      from "1.IH" [OF step [symmetric] refl cne del [symmetric] refl nx [unfolded nn] tne f2 mk2 pn]
      have ih: "deleteDir_loop_s3 a m2 pfx (Some ?t) =
          (True, m2\<lparr>objects := filter (\<lambda>kv. \<not> selected pfx (Some ?t) kv) (objects m2)\<rparr>)" .
      have "deleteDir_loop_s3 a m pfx cursor = deleteDir_loop_s3 a m2 pfx (Some ?t)"
        by (subst deleteDir_loop_s3.simps) (simp add: step del cne nx nn tne)
      moreover have "filter (\<lambda>kv. \<not> selected pfx (Some ?t) kv) (objects m2)
          = filter (\<lambda>kv. \<not> selected pfx cursor kv) (objects m)"
        unfolding o2 by (rule page_removal_then_rest [OF False])
      ultimately show ?thesis using ih by (simp add: m2u)
    qed
  qed
qed


lemma bun_list_step:
  assumes "faults m = []"
  shows "bun_list m pfx False cursor =
    (Inr \<lparr>contents = map bun_listed_object
                         (take (maxKeys m) (sort_key fst (filter (selected pfx cursor) (objects m)))),
          commonPrefixes = [],
          continuationToken = cursor,
          nextContinuationToken =
            (if maxKeys m < length (filter (selected pfx cursor) (objects m)) \<and>
                take (maxKeys m) (sort_key fst (filter (selected pfx cursor) (objects m))) \<noteq> []
             then Some (fst (last (take (maxKeys m)
                                     (sort_key fst (filter (selected pfx cursor) (objects m))))))
             else None)\<rparr>, m)"
  unfolding bun_list_def take_fault_no_faults [OF assms] list_page_plain
  by simp

lemma bun_delete_all_no_faults:
  "faults m = [] \<Longrightarrow> bun_delete_all m keys = (True, remove_objects keys m)"
proof (induction keys arbitrary: m)
  case Nil
  then show ?case by (simp add: remove_objects_def)
next
  case (Cons k keys)
  have f: "faults (remove_objects [k] m) = []" using Cons.prems by (simp add: remove_objects_def)
  have "remove_objects keys (remove_objects [k] m) = remove_objects (k # keys) m"
    by (simp add: remove_objects_def conj_commute)
  with Cons.IH [OF f] Cons.prems show ?case
    by (simp add: bun_delete_def take_fault_no_faults)
qed

text \<open>
  A \<^verbatim>\<open>deleteDir\<close> of the Bun adapter that starts without a token removes the first
  page of the listing and ends there: the token it reads back is the one it sent.
\<close>

lemma deleteDir_loop_bun_first_page:
  assumes nf: "faults m = []"
  shows "deleteDir_loop_bun a m pfx None =
     (True, m\<lparr>objects :=
        filter (\<lambda>kv. fst kv \<notin> fst ` set (take (maxKeys m)
                  (sort_key fst (filter (selected pfx None) (objects m))))) (objects m)\<rparr>)"
proof -
  let ?sel = "filter (selected pfx None) (objects m)"
  let ?page = "take (maxKeys m) (sort_key fst ?sel)"
  define nxt where "nxt = (if maxKeys m < length ?sel \<and> ?page \<noteq> [] then Some (fst (last ?page)) else None)"
  define result where "result = \<lparr>contents = map bun_listed_object ?page, commonPrefixes = [],
                  continuationToken = None, nextContinuationToken = nxt\<rparr>"
  define m2 where "m2 = remove_objects (map fst ?page) m"
  have step: "bun_list m pfx False None = (Inr result, m)"
    unfolding result_def nxt_def by (rule bun_list_step [OF nf])
  have c: "contents result = map bun_listed_object ?page" by (simp add: result_def)
  have keys: "map (\<lambda>obj. str_of (obj ''key'')) (contents result) = map fst ?page"
    unfolding c by (simp add: bun_listed_object_def)
  have del: "bun_delete_all m (map (\<lambda>obj. str_of (obj ''key'')) (contents result)) = (True, m2)"
    unfolding keys m2_def by (rule bun_delete_all_no_faults [OF nf])
  have nx: "continuationToken result = None" by (simp add: result_def)
  have m2: "m2 = m\<lparr>objects := filter (\<lambda>kv. fst kv \<notin> fst ` set ?page) (objects m)\<rparr>"
    by (simp add: m2_def remove_objects_def)
  show ?thesis
  proof (cases "?page = []")
    case True
    then have "contents result = []" using c by simp
    then have "deleteDir_loop_bun a m pfx None = (True, m)"
      by (subst deleteDir_loop_bun.simps) (simp add: step)
    then show ?thesis by (simp add: True)
  next
    case False
    then have cne: "contents result \<noteq> []" using c by simp
    have "deleteDir_loop_bun a m pfx None = (True, m2)"
      by (subst deleteDir_loop_bun.simps) (simp add: step del cne nx)
    then show ?thesis by (simp only: m2)
  qed
qed

lemma deleteDir_loop_bun_one_page:
  assumes nf: "faults m = []"
    and fits: "length (filter (selected pfx None) (objects m)) \<le> maxKeys m"
  shows "deleteDir_loop_bun a m pfx None =
     (True, m\<lparr>objects := filter (\<lambda>kv. \<not> selected pfx None kv) (objects m)\<rparr>)"
proof -
  from fits have "take (maxKeys m) (sort_key fst (filter (selected pfx None) (objects m)))
      = sort_key fst (filter (selected pfx None) (objects m))"
    by simp
  then show ?thesis
    unfolding deleteDir_loop_bun_first_page [OF nf] by (simp only: whole_removal)
qed

lemma selected_from_start: "selected pfx None kv = starts_with pfx (fst kv)"
  by (simp add: selected_def)

subsection \<open>Facts about listings\<close>

lemma strip_sep_rtrim: "strip_sep (rtrim p ''/'') = strip_sep p"
  by (simp add: strip_sep_def rtrim_def)

lemma dirname_of_rtrim: "dirname_of (rtrim p ''/'') = dirname_of p"
  by (simp add: dirname_of_def strip_sep_rtrim)

lemma fold_map_other:
  "k \<notin> snd ` set tbl \<Longrightarrow>
   fold (\<lambda>(from_key, to_key) acc.
           (case object from_key of None \<Rightarrow> acc | Some v \<Rightarrow> acc(to_key \<mapsto> v))) tbl acc k = acc k"
  by (induction tbl arbitrary: acc) (auto split: option.splits)

lemma UtilHelper_map_other: "k \<notin> snd ` set tbl \<Longrightarrow> UtilHelper_map object tbl k = None"
  by (simp add: UtilHelper_map_def fold_map_other)

lemma pathinfo_dirname: "pathinfo p ''dirname'' = Some (JStr (dirname_of p))"
  and pathinfo_path: "pathinfo p ''path'' = None"
  by (simp_all add: pathinfo_def)

lemma well_formed_dir:
  assumes "result ''dirname'' = Some (JStr (dirname_of p))"
  shows "well_formed_entry (result(''type'' \<mapsto> t, ''path'' \<mapsto> JStr (rtrim p ''/'')))"
  using assms by (simp add: well_formed_entry_def path_of_def dirname_of_rtrim)

lemma well_formed_file:
  assumes "result ''dirname'' = Some (JStr (dirname_of p))" and "result ''path'' = Some (JStr p)"
    and "mapped ''path'' = None" and "mapped ''dirname'' = None"
  shows "well_formed_entry (result ++ mapped)"
  using assms by (simp add: well_formed_entry_def path_of_def map_add_def)


lemma normalizeResponse_s3_entry: "well_formed_entry (normalizeResponse_s3 a r path)"
proof -
  define p where "p = (if path \<noteq> [] then path
               else removePathPrefix (pathPrefix a)
                      (if truthy (r ''Key'') then str_of (r ''Key'')
                       else str_of (r ''Prefix'')))"
  define result0 where "result0 = [''path'' \<mapsto> JStr p] ++ pathinfo p"
  define result1 where "result1 = (case r ''LastModified'' of
                       Some lm \<Rightarrow>
                         if truthy (Some lm)
                         then result0(''timestamp'' \<mapsto> js_divide (date_getTime lm) 1000)
                         else result0
                     | None \<Rightarrow> result0)"
  define response1 where "response1 = (case r ''Body'' of
                         Some b \<Rightarrow>
                           if truthy (Some b) then r(''Body'' \<mapsto> body_to_string_s3 b)
                           else r
                       | None \<Rightarrow> r)"
  have e: "normalizeResponse_s3 a r path =
      (if ends_with_slash p
       then result1(''type'' \<mapsto> JStr ''dir'', ''path'' \<mapsto> JStr (rtrim p ''/''))
       else result1(''type'' \<mapsto> JStr ''file'') ++ UtilHelper_map response1 resultMap_s3)"
    unfolding normalizeResponse_s3_def Let_def p_def result0_def result1_def response1_def ..
  have r0: "result0 ''dirname'' = Some (JStr (dirname_of p))" "result0 ''path'' = Some (JStr p)"
    by (simp_all add: result0_def map_add_def pathinfo_dirname pathinfo_path)
  have r1: "result1 ''dirname'' = Some (JStr (dirname_of p))" "result1 ''path'' = Some (JStr p)"
    using r0 by (cases "r ''LastModified''"; simp add: result1_def)+
  have m: "UtilHelper_map response1 resultMap_s3 ''path'' = None"
    "UtilHelper_map response1 resultMap_s3 ''dirname'' = None"
    by (rule UtilHelper_map_other; simp add: resultMap_s3_def)+
  show ?thesis
  proof (cases "ends_with_slash p")
    case True
    with e well_formed_dir [where result = result1 and p = p and t = "JStr ''dir''"] r1 show ?thesis by simp
  next
    case False
    have "well_formed_entry (result1(''type'' \<mapsto> JStr ''file'') ++ UtilHelper_map response1 resultMap_s3)"
      by (rule well_formed_file [where p = p]) (simp_all add: r1 m)
    with e False show ?thesis by simp
  qed
qed

lemma synthesized_dir_entry:
  "well_formed_entry (synthesized_dir d)" "path_of (synthesized_dir d) = d" "is_dir (synthesized_dir d)"
  by (simp_all add: well_formed_entry_def synthesized_dir_def pathinfo_def path_of_def is_dir_def
        map_add_def)

lemma emulateDirectories_entries:
  assumes "list_all well_formed_entry listing"
  shows "list_all well_formed_entry (emulateDirectories listing)"
proof -
  have "well_formed_entry e" if "e \<in> set (emulateDirectories listing)" for e
  proof -
    from that have "e \<in> set listing \<or> (\<exists>d. e = synthesized_dir d)"
      by (auto simp: emulateDirectories_def Let_def)
    then show ?thesis
      using assms synthesized_dir_entry(1) by (auto simp: list_all_iff)
  qed
  then show ?thesis by (simp add: list_all_iff)
qed

lemma emulateDirectories_ancestor:
  assumes "f \<in> set listing" and "d \<in> set (ancestors (path_of f))"
  shows "\<exists>e \<in> set (emulateDirectories listing). path_of e = d \<and> is_dir e"
proof (cases "d \<in> set (map path_of (filter is_dir listing))")
  case True
  then obtain e where "e \<in> set listing" "is_dir e" "path_of e = d" by auto
  then show ?thesis by (auto simp: emulateDirectories_def Let_def)
next
  case False
  with assms have "synthesized_dir d \<in> set (emulateDirectories listing)"
    by (auto simp: emulateDirectories_def Let_def)
  then show ?thesis using synthesized_dir_entry by blast
qed

lemma dirname_of_examples:
  "dirname_of ''a/b/c.txt'' = ''a/b''" "dirname_of ''a/b'' = ''a''" "dirname_of ''a'' = []"
  by (simp_all add: dirname_of_def strip_sep_def)

lemma ancestors_example: "ancestors ''a/b/c.txt'' = [''a/b'', ''a'']"
  by (simp add: ancestors.simps [of "''a/b/c.txt''"] ancestors.simps [of "''a/b''"]
        ancestors.simps [of "''a''"] dirname_of_examples)

text \<open>The entry a listing holds for a directory below the query root \<^verbatim>\<open>a\<close>.\<close>

lemma listing_has_a_b:
  assumes wf: "list_all well_formed_entry response"
    and f: "f \<in> set response" and p: "path_of f = ''a/b/c.txt''"
  shows "\<exists>e \<in> set (filter (\<lambda>item. rtrim (path_of item) ''/'' \<noteq> rtrim ''a'' ''/'')
                     (emulateDirectories response)).
           e ''path'' = Some (JStr ''a/b'') \<and> e ''type'' = Some (JStr ''dir'') \<and>
           e ''dirname'' = Some (JStr ''a'')"
proof -
  from emulateDirectories_ancestor [OF f, of "''a/b''"] p
  obtain e where e: "e \<in> set (emulateDirectories response)" "path_of e = ''a/b''" "is_dir e"
    by (auto simp: ancestors_example)
  from emulateDirectories_entries [OF wf] e(1) have "well_formed_entry e"
    by (simp add: list_all_iff)
  with e(2) have "e ''path'' = Some (JStr ''a/b'')" "e ''dirname'' = Some (JStr ''a'')"
    by (simp_all add: well_formed_entry_def dirname_of_examples)
  moreover have "rtrim (path_of e) ''/'' \<noteq> rtrim ''a'' ''/''"
    using e(2) by (simp add: rtrim_def)
  ultimately show ?thesis using e by (auto simp: is_dir_def)
qed


lemma key_roundtrip:
  assumes "\<not> starts_with ''/'' P"
  shows "ltrim (applyPathPrefix P ''a/b/c.txt'') ''/'' = P @ ''a/b/c.txt''"
    and "ltrim (applyPathPrefix P ''a/'') ''/'' = P @ ''a/''"
    and "removePathPrefix P (P @ x) = x"
  using assms
  by (cases P; simp add: ltrim_def applyPathPrefix_def removePathPrefix_def starts_with_def)+

lemma listed_file_path_s3:
  assumes "\<not> starts_with ''/'' (pathPrefix a)"
  shows "path_of (normalizeResponse_s3 a (listed_object (pathPrefix a @ ''a/b/c.txt'', ob)) [])
           = ''a/b/c.txt''"
  using assms
  by (simp add: normalizeResponse_s3_def Let_def listed_object_def key_roundtrip(3)
        ends_with_slash_def path_of_def map_add_def UtilHelper_map_other resultMap_s3_def
        pathinfo_path)

text \<open>
  A listing of the Bun adapter takes one round: the first request has no token, so
  the answer repeats none, and the loop ends with what the first page held.
\<close>

lemma listContents_loop_bun_one_round:
  "listContents_loop_bun a m pfx recursive None response =
     (case bun_list m pfx (\<not> recursive) None of
        (Inl e, m1) \<Rightarrow> Some (Inl e, m1)
      | (Inr result, m1) \<Rightarrow>
          Some (Inr (response @
                     map (\<lambda>obj. normalizeResponse_bun a obj []) (contents result) @
                     map (\<lambda>prefixObj.
                            normalizeResponse_bun a
                              (\<lambda>k. if k = ''key'' \<or> k = ''Key'' then prefixObj ''prefix'' else None) [])
                         (commonPrefixes result)), m1))"
proof -
  have "continuationToken result = None"
    if "bun_list m pfx (\<not> recursive) None = (Inr result, m1)" for result m1
    using that by (auto simp: bun_list_def split: prod.splits bool.splits)
  then show ?thesis
    by (subst listContents_loop_bun.simps) (auto simp: Let_def split: prod.splits sum.splits)
qed

lemma listContents_bun_one_round:
  "listContents_bun a m directory recursive =
     (case bun_list m (applyPathPrefix_bun a (rtrim directory ''/'' @ ''/'')) (\<not> recursive) None of
        (Inl e, m1) \<Rightarrow> Some (Inl e, m1)
      | (Inr result, m1) \<Rightarrow>
          Some (Inr (filter (\<lambda>item. rtrim (path_of item) ''/'' \<noteq> rtrim directory ''/'')
                       (emulateDirectories
                          (map (\<lambda>obj. normalizeResponse_bun a obj []) (contents result) @
                           map (\<lambda>prefixObj.
                                  normalizeResponse_bun a
                                    (\<lambda>k. if k = ''key'' \<or> k = ''Key'' then prefixObj ''prefix'' else None) [])
                               (commonPrefixes result)))), m1))"
  unfolding listContents_bun_def Let_def listContents_loop_bun_one_round
  by (simp split: prod.splits sum.splits)

subsection \<open>Timestamps (claim C9)\<close>

text \<open>
  Claim C9: every entry normalised from a backend response that carries a
  last-modified value has an integer number of epoch seconds as its timestamp.

  The S3 adapter divides the epoch milliseconds by 1000 and does not round (the
  local adapter does, with \<^verbatim>\<open>Math.round\<close>).  A listing carries the instant with
  its fraction of a second: for the object \<^verbatim>\<open>test/1.txt\<close> of the example bucket,
  last modified at 1570902630500 ms, \<^verbatim>\<open>listContents('test/')\<close> returns one file
  entry, whose timestamp is 1570902630.5.
\<close>

theorem s3_listing_timestamp_fractional:
  "(case fst (listContents_s3 example_s3 example_bucket ''test/'' False) of
      Inr [e] \<Rightarrow>
        e ''path'' = Some (JStr ''test/1.txt'') \<and>
        e ''type'' = Some (JStr ''file'') \<and>
        e ''timestamp'' = Some (JNum (3141805261 / 2)) \<and>
        \<not> whole_seconds (e ''timestamp'')
    | _ \<Rightarrow> False)"
  by code_simp

subsection \<open>Reading a missing file (claim C4)\<close>

text \<open>
  Claim C4: \<^verbatim>\<open>read(path)\<close> returns an entry with contents when a file exists
  at the path, and returns \<^verbatim>\<open>false\<close>, not a thrown exception, when it does not.

  On the S3 and the Bun adapter the \<^verbatim>\<open>catch\<close> block rethrows: reading
  \<^verbatim>\<open>test/missing.txt\<close> from the example bucket throws the medium's error.  The
  local adapter returns \<^verbatim>\<open>false\<close> for a missing file.
\<close>

theorem s3_read_missing_throws:
  "(case fst (read_s3 example_s3 example_bucket ''test/missing.txt'') of
      Inl e \<Rightarrow> e = NoSuchKey | Inr r \<Rightarrow> False) \<and>
   (case fst (read_bun example_bun example_bucket ''test/missing.txt'') of
      Inl e \<Rightarrow> e = NoSuchKey | Inr r \<Rightarrow> False) \<and>
   (case fst (read_local example_local example_tree ''test/missing.txt'') of
      Inr None \<Rightarrow> True | _ \<Rightarrow> False)"
  by code_simp

subsection \<open>Directory entries (claim C3)\<close>

text \<open>
  Claim C3: every entry is tagged \<open>file\<close> or \<open>dir\<close>, and an entry tagged
  \<open>dir\<close> carries neither a size nor contents.

  \<^verbatim>\<open>normalizeResponse\<close> of the local adapter assigns \<open>size\<close> from the stat
  before it looks at the type.  Listing \<^verbatim>\<open>test2/\<close> of the example tree
  normalises the response \<^verbatim>\<open>{ path: '/srv/files/test2/test31' }\<close>; the entry
  it builds is a \<open>dir\<close> with size 64.
\<close>

theorem local_directory_entry_carries_size:
  "(case fst (normalizeResponse_local example_local example_tree
                [''path'' \<mapsto> JStr ''/srv/files/test2/test31''] []) of
      Inr e \<Rightarrow>
        e ''path'' = Some (JStr ''test2/test31'') \<and>
        e ''type'' = Some (JStr ''dir'') \<and>
        e ''size'' = Some (JNum 64)
    | Inl err \<Rightarrow> False)"
  by code_simp

subsection \<open>Config of one call and the adapter's options (claim C10)\<close>

text \<open>
  Claim C10: the config passed to one \<^verbatim>\<open>write\<close>, \<^verbatim>\<open>update\<close> or
  \<^verbatim>\<open>createDir\<close> call affects only that call; afterwards the adapter is as it
  was, and later operations behave as if the config had never been supplied.

  \<^verbatim>\<open>getOptionsFromConfig\<close> of the S3 adapter writes into \<^verbatim>\<open>this.options\<close>.
  After \<^verbatim>\<open>write('a.txt', 'x', { visibility: 'public' })\<close> the adapter's options
  hold \<^verbatim>\<open>ACL: 'public-read'\<close>, and a following
  \<^verbatim>\<open>write('b.txt', 'y', {})\<close> stores \<^verbatim>\<open>b.txt\<close> publicly readable; on the
  adapter as it was before the first call the same write stores it private.
\<close>

theorem s3_config_leaks_into_later_write:
  "(case write_s3 example_s3 empty_bucket ''a.txt'' (JStr ''x'') [''visibility'' \<mapsto> JStr ''public''] of
      (r1, a1, m1) \<Rightarrow>
        options example_s3 ''ACL'' = None \<and>
        options a1 ''ACL'' = Some (JStr ''public-read'') \<and>
        (case write_s3 a1 m1 ''b.txt'' (JStr ''y'') Map.empty of
           (r2, a2, m2) \<Rightarrow>
             map_option obj_acl (lookup_object m2 ''unittest/b.txt'') = Some ''public-read'') \<and>
        (case write_s3 example_s3 m1 ''b.txt'' (JStr ''y'') Map.empty of
           (r2, a2, m2) \<Rightarrow>
             map_option obj_acl (lookup_object m2 ''unittest/b.txt'') = Some ''private''))"
  by code_simp

subsection \<open>Deleting a file (claim C5)\<close>

text \<open>
  Claim C5, as amended: \<^verbatim>\<open>delete(path)\<close> never throws (it has no error
  result).  For a path that ends with the separator it returns \<^verbatim>\<open>false\<close> and
  leaves the storage as it was: the S3 adapter returns before any call to the
  medium, on the local adapter \<^verbatim>\<open>unlink\<close> refuses the path.  For any other
  path the S3 adapter returns \<^verbatim>\<open>true\<close> exactly when the medium's delete call
  does not fail, whether or not the key held an object; after \<^verbatim>\<open>true\<close> the
  key holds no object and the other objects are untouched, after \<^verbatim>\<open>false\<close>
  the bucket is untouched.  The local adapter returns \<^verbatim>\<open>false\<close> and changes
  nothing when the target does not exist; when the target is a regular file it
  returns \<^verbatim>\<open>true\<close> exactly when the \<^verbatim>\<open>unlink\<close> call does not fail, and then
  that file is removed and every other node is untouched, while after
  \<^verbatim>\<open>false\<close> the tree is untouched; whenever it returns \<^verbatim>\<open>true\<close> the target
  was a regular file and no longer exists.
\<close>

theorem delete_contract:
  "(ends_with_slash path \<longrightarrow> delete_s3 a m path = (False, m)) \<and>
   (\<not> ends_with_slash path \<longrightarrow>
      fst (delete_s3 a m path) = (\<not> fst (take_fault m)) \<and>
      (fst (delete_s3 a m path) \<longrightarrow>
         objects (snd (delete_s3 a m path)) =
           filter (\<lambda>kv. fst kv \<noteq> applyPathPrefix_s3 a path) (objects m) \<and>
         lookup_object (snd (delete_s3 a m path)) (applyPathPrefix_s3 a path) = None) \<and>
      (\<not> fst (delete_s3 a m path) \<longrightarrow>
         objects (snd (delete_s3 a m path)) = objects m)) \<and>
   (r \<noteq> [] \<and> ends_with_slash path \<longrightarrow>
      \<not> fst (delete_local (BunLocalAdapter r) fs path) \<and>
      nodes (snd (delete_local (BunLocalAdapter r) fs path)) = nodes fs) \<and>
   (fs_find fs (applyPathPrefix_local b path) = Inl ENOENT \<longrightarrow>
      \<not> fst (delete_local b fs path) \<and>
      nodes (snd (delete_local b fs path)) = nodes fs) \<and>
   ((case fs_find fs (applyPathPrefix_local b path) of Inl e \<Rightarrow> False | Inr n \<Rightarrow> \<not> is_directory n) \<longrightarrow>
      fst (delete_local b fs path) = (\<not> fst (fs_take_fault fs)) \<and>
      (fst (delete_local b fs path) \<longrightarrow>
         nodes (snd (delete_local b fs path)) =
           filter (\<lambda>kv. fst kv \<noteq> strip_sep (applyPathPrefix_local b path)) (nodes fs)) \<and>
      (\<not> fst (delete_local b fs path) \<longrightarrow>
         nodes (snd (delete_local b fs path)) = nodes fs)) \<and>
   (fst (delete_local b fs path) \<longrightarrow>
      (\<exists>n. fs_find fs (applyPathPrefix_local b path) = Inr n \<and> \<not> is_directory n) \<and>
      fs_find (snd (delete_local b fs path)) (applyPathPrefix_local b path) = Inl ENOENT)"
proof -
  obtain f m' where tf: "take_fault m = (f, m')" by (cases "take_fault m")
  then have o: "objects m' = objects m" by (simp add: take_fault_cases)
  have s3_dir: "delete_s3 a m path = (False, m)" if "ends_with_slash path"
    using that by (simp add: delete_s3_def)
  have s3_res: "delete_s3 a m path =
      (if f then (False, m') else (True, remove_objects [applyPathPrefix_s3 a path] m'))"
    if "\<not> ends_with_slash path"
    using that tf by (simp add: delete_s3_def send_DeleteObject_def)
  have s3_file: "fst (delete_s3 a m path) = (\<not> fst (take_fault m))"
    "fst (delete_s3 a m path) \<longrightarrow>
         objects (snd (delete_s3 a m path)) =
           filter (\<lambda>kv. fst kv \<noteq> applyPathPrefix_s3 a path) (objects m) \<and>
         lookup_object (snd (delete_s3 a m path)) (applyPathPrefix_s3 a path) = None"
    "\<not> fst (delete_s3 a m path) \<longrightarrow> objects (snd (delete_s3 a m path)) = objects m"
    if "\<not> ends_with_slash path"
    using s3_res [OF that] tf o
    by (simp_all add: remove_objects_def lookup_object_def map_of_filter_other)
  obtain g fs' where tg: "fs_take_fault fs = (g, fs')" by (cases "fs_take_fault fs")
  then have n: "nodes fs' = nodes fs" by (simp add: fs_take_fault_cases)
  have ff: "fs_find fs' p = fs_find fs p" for p
    using n by (rule fs_find_fault_free)
  have local_dir: "\<not> fst (delete_local (BunLocalAdapter r) fs path) \<and>
      nodes (snd (delete_local (BunLocalAdapter r) fs path)) = nodes fs"
    if "r \<noteq> [] \<and> ends_with_slash path"
  proof -
    from that have "ends_with_slash (applyPathPrefix_local (BunLocalAdapter r) path)"
      by (simp add: local_location_ends_with_slash)
    from fs_unlink_dir_path [OF this, of fs] show ?thesis
      by (auto simp: delete_local_def)
  qed
  have local_missing: "\<not> fst (delete_local b fs path) \<and>
      nodes (snd (delete_local b fs path)) = nodes fs"
    if "fs_find fs (applyPathPrefix_local b path) = Inl ENOENT"
    using that tg n by (cases g) (simp_all add: delete_local_def fs_unlink_def ff)
  have local_ok: "(\<exists>n. fs_find fs (applyPathPrefix_local b path) = Inr n \<and> \<not> is_directory n) \<and>
      fs_find (snd (delete_local b fs path)) (applyPathPrefix_local b path) = Inl ENOENT"
    if ok: "fst (delete_local b fs path)"
  proof -
    from ok tg have g: "\<not> g"
      by (cases g) (simp_all add: delete_local_def fs_unlink_def)
    from ok tg g obtain nd where nd: "fs_find fs (applyPathPrefix_local b path) = Inr nd"
      by (cases "fs_find fs (applyPathPrefix_local b path)")
         (simp_all add: delete_local_def fs_unlink_def ff)
    from ok tg g nd have d: "\<not> is_directory nd"
      by (cases "is_directory nd") (simp_all add: delete_local_def fs_unlink_def ff)
    from tg g nd d have "nodes (snd (delete_local b fs path)) =
        filter (\<lambda>kv. fst kv \<noteq> strip_sep (applyPathPrefix_local b path)) (nodes fs)"
      by (simp add: delete_local_def fs_unlink_def ff n)
    then have "fs_find (snd (delete_local b fs path)) (applyPathPrefix_local b path) = Inl ENOENT"
      by (simp add: fs_find_def map_of_filter_other)
    with nd d show ?thesis by blast
  qed
  have local_file: "fst (delete_local b fs path) = (\<not> fst (fs_take_fault fs))"
    "fst (delete_local b fs path) \<longrightarrow>
       nodes (snd (delete_local b fs path)) =
         filter (\<lambda>kv. fst kv \<noteq> strip_sep (applyPathPrefix_local b path)) (nodes fs)"
    "\<not> fst (delete_local b fs path) \<longrightarrow> nodes (snd (delete_local b fs path)) = nodes fs"
    if "case fs_find fs (applyPathPrefix_local b path) of Inl e \<Rightarrow> False | Inr n \<Rightarrow> \<not> is_directory n"
    using that tg n
    by (cases g; cases "fs_find fs (applyPathPrefix_local b path)";
        simp add: delete_local_def fs_unlink_def ff)+
  from s3_dir s3_file local_dir local_missing local_file local_ok show ?thesis by blast
qed


theorem delete_contract_witness:
  "ends_with_slash ''test/'' \<and>
   delete_s3 example_s3 example_bucket ''test/'' = (False, example_bucket) \<and>
   \<not> ends_with_slash ''test/1.txt'' \<and>
   fst (delete_s3 example_s3 example_bucket ''test/1.txt'') \<and>
   lookup_object (snd (delete_s3 example_s3 example_bucket ''test/1.txt''))
     (applyPathPrefix_s3 example_s3 ''test/1.txt'') = None \<and>
   \<not> fst (delete_local example_local example_tree ''test2/'') \<and>
   nodes (snd (delete_local example_local example_tree ''test2/'')) = nodes example_tree \<and>
   fs_find example_tree (applyPathPrefix_local example_local ''test2/none.txt'') = Inl ENOENT \<and>
   \<not> fst (delete_local example_local example_tree ''test2/none.txt'') \<and>
   \<not> fst (fs_take_fault example_tree) \<and>
   fst (delete_local example_local example_tree ''test2/test.txt'') \<and>
   map fst (nodes (snd (delete_local example_local example_tree ''test2/test.txt''))) =
     [''/srv/files'', ''/srv/files/test2'', ''/srv/files/test2/test31''] \<and>
   fs_find (snd (delete_local example_local example_tree ''test2/test.txt''))
     (applyPathPrefix_local example_local ''test2/test.txt'') = Inl ENOENT"
proof -
  have h1: "ends_with_slash ''test/''" by code_simp
  have h2: "\<not> ends_with_slash ''test/1.txt''" by code_simp
  have h3: "\<not> fst (take_fault example_bucket)" by code_simp
  have h4: "fs_find example_tree (applyPathPrefix_local example_local ''test2/none.txt'') = Inl ENOENT"
    by code_simp
  have h5: "\<not> fst (fs_take_fault example_tree) \<and>
     (case fs_find example_tree (applyPathPrefix_local example_local ''test2/test.txt'') of
        Inl e \<Rightarrow> False | Inr n \<Rightarrow> \<not> is_directory n)"
    by code_simp
  have e5: "map fst (filter (\<lambda>kv. fst kv \<noteq> strip_sep (applyPathPrefix_local example_local ''test2/test.txt''))
                (nodes example_tree)) =
     [''/srv/files'', ''/srv/files/test2'', ''/srv/files/test2/test31'']"
    by code_simp
  have h6: "''/srv/files'' \<noteq> []" by simp
  note c1 = delete_contract [where path = "''test/''" and a = example_s3 and m = example_bucket
      and r = "''/srv/files''" and fs = example_tree and b = example_local]
  note c2 = delete_contract [where path = "''test/1.txt''" and a = example_s3 and m = example_bucket
      and r = "''/srv/files''" and fs = example_tree and b = example_local]
  note c3 = delete_contract [where path = "''test2/''" and a = example_s3 and m = example_bucket
      and r = "''/srv/files''" and fs = example_tree and b = example_local]
  note c4 = delete_contract [where path = "''test2/none.txt''" and a = example_s3 and m = example_bucket
      and r = "''/srv/files''" and fs = example_tree and b = example_local]
  note c5 = delete_contract [where path = "''test2/test.txt''" and a = example_s3 and m = example_bucket
      and r = "''/srv/files''" and fs = example_tree and b = example_local]
  have h7: "ends_with_slash ''test2/''" by code_simp
  from c1 h1 have g1: "delete_s3 example_s3 example_bucket ''test/'' = (False, example_bucket)"
    by blast
  from c2 h2 h3 have g2: "fst (delete_s3 example_s3 example_bucket ''test/1.txt'') \<and>
   lookup_object (snd (delete_s3 example_s3 example_bucket ''test/1.txt''))
     (applyPathPrefix_s3 example_s3 ''test/1.txt'') = None"
    by blast
  from c3 h6 h7 have g3: "\<not> fst (delete_local example_local example_tree ''test2/'') \<and>
   nodes (snd (delete_local example_local example_tree ''test2/'')) = nodes example_tree"
    unfolding example_local_def by blast
  from c4 h4 have g4: "\<not> fst (delete_local example_local example_tree ''test2/none.txt'')"
    by blast
  from c5 h5 have g5: "fst (delete_local example_local example_tree ''test2/test.txt'')"
    by blast
  from c5 h5 g5 have g6: "nodes (snd (delete_local example_local example_tree ''test2/test.txt'')) =
       filter (\<lambda>kv. fst kv \<noteq> strip_sep (applyPathPrefix_local example_local ''test2/test.txt''))
         (nodes example_tree)"
    and g7: "fs_find (snd (delete_local example_local example_tree ''test2/test.txt''))
     (applyPathPrefix_local example_local ''test2/test.txt'') = Inl ENOENT"
    by blast+
  from g6 e5 have g8: "map fst (nodes (snd (delete_local example_local example_tree ''test2/test.txt''))) =
     [''/srv/files'', ''/srv/files/test2'', ''/srv/files/test2/test31'']"
    by simp
  from h1 h2 h4 h5 g1 g2 g3 g4 g5 g7 g8 show ?thesis by blast
qed

text \<open>
  The claim as stated, "\<^verbatim>\<open>delete\<close> returns \<^verbatim>\<open>false\<close> when the target does
  not exist", fails on the S3 adapter: the medium answers a delete of a key that
  holds no object with success, and the adapter returns \<^verbatim>\<open>true\<close>.
\<close>

theorem delete_missing_key_returns_true:
  "lookup_object empty_bucket (applyPathPrefix_s3 example_s3 ''test/missing.txt'') = None \<and>
   fst (delete_s3 example_s3 empty_bucket ''test/missing.txt'')"
  by code_simp

subsection \<open>Renaming (claim C2)\<close>

text \<open>
  Claim C2, as amended: on the S3 adapter \<^verbatim>\<open>rename(path, newpath)\<close> is
  copy-then-delete-source.  It returns \<^verbatim>\<open>true\<close> only if the copy step and the
  delete step both returned \<^verbatim>\<open>true\<close>, and then the source key holds no object.
  When the copy step fails it returns \<^verbatim>\<open>false\<close> without deleting: the bucket
  is as it was, and \<^verbatim>\<open>has(path)\<close> answers afterwards what it answers before
  (under any script \<open>fl\<close> of later faults).  On the local adapter rename is one
  native rename call and no copy; when it returns \<^verbatim>\<open>false\<close> the tree is as it
  was and \<^verbatim>\<open>has(path)\<close> answers as before.
\<close>

theorem rename_contract:
  "(fst (rename_s3 a m p q) \<longrightarrow>
      fst (copy_s3 a m p q) \<and>
      fst (delete_s3 a (snd (copy_s3 a m p q)) p) \<and>
      lookup_object (snd (rename_s3 a m p q)) (applyPathPrefix_s3 a p) = None) \<and>
   (\<not> fst (copy_s3 a m p q) \<longrightarrow>
      \<not> fst (rename_s3 a m p q) \<and>
      objects (snd (rename_s3 a m p q)) = objects m \<and>
      has_s3 a (snd (rename_s3 a m p q)\<lparr>faults := fl\<rparr>) p = has_s3 a (m\<lparr>faults := fl\<rparr>) p) \<and>
   (\<not> fst (rename_local b fs p q) \<longrightarrow>
      nodes (snd (rename_local b fs p q)) = nodes fs \<and>
      has_local b (snd (rename_local b fs p q)\<lparr>fs_faults := gl\<rparr>) p =
        has_local b (fs\<lparr>fs_faults := gl\<rparr>) p)"
proof -
  obtain c m1 where c: "copy_s3 a m p q = (c, m1)" by (cases "copy_s3 a m p q")
  have r: "rename_s3 a m p q = (if c then delete_s3 a m1 p else (False, m1))"
    using c by (simp add: rename_s3_def)
  have ok: "fst (copy_s3 a m p q) \<and> fst (delete_s3 a (snd (copy_s3 a m p q)) p) \<and>
      lookup_object (snd (rename_s3 a m p q)) (applyPathPrefix_s3 a p) = None"
    if t: "fst (rename_s3 a m p q)"
  proof -
    from t r have cc: c by (cases c) simp_all
    with t r have d: "fst (delete_s3 a m1 p)" by simp
    then have ns: "\<not> ends_with_slash p" by (auto simp: delete_s3_def)
    from d delete_s3_unfold [OF ns, of a m1]
    have "snd (delete_s3 a m1 p) = remove_objects [applyPathPrefix_s3 a p] (snd (take_fault m1))"
      by (simp split: if_splits)
    then have "lookup_object (snd (delete_s3 a m1 p)) (applyPathPrefix_s3 a p) = None"
      by (simp add: lookup_after_remove)
    with cc d c r show ?thesis by simp
  qed
  have failed: "\<not> fst (rename_s3 a m p q) \<and>
      objects (snd (rename_s3 a m p q)) = objects m \<and>
      has_s3 a (snd (rename_s3 a m p q)\<lparr>faults := fl\<rparr>) p = has_s3 a (m\<lparr>faults := fl\<rparr>) p"
    if f: "\<not> fst (copy_s3 a m p q)"
  proof -
    from f c have nc: "\<not> c" by simp
    from copy_s3_fail_frame [OF f, where fl = fl] c
    have fr: "m1\<lparr>faults := fl\<rparr> = m\<lparr>faults := fl\<rparr>" by simp
    then have "objects (m1\<lparr>faults := fl\<rparr>) = objects (m\<lparr>faults := fl\<rparr>)" by simp
    then have "objects m1 = objects m" by simp
    with nc r fr show ?thesis by simp
  qed
  have local_failed: "nodes (snd (rename_local b fs p q)) = nodes fs \<and>
      has_local b (snd (rename_local b fs p q)\<lparr>fs_faults := gl\<rparr>) p =
        has_local b (fs\<lparr>fs_faults := gl\<rparr>) p"
    if f: "\<not> fst (rename_local b fs p q)"
  proof -
    let ?r = "fs_rename fs (applyPathPrefix_local b p) (applyPathPrefix_local b q)"
    obtain x fs1 where x: "?r = (x, fs1)" by (cases ?r)
    with f obtain e where e: "x = Inl e"
      by (cases x) (simp_all add: rename_local_def Let_def)
    with x have "fst ?r = Inl e" by simp
    from fs_rename_fail_frame [OF this, where fl = gl] x
    have fr: "fs1\<lparr>fs_faults := gl\<rparr> = fs\<lparr>fs_faults := gl\<rparr>" by simp
    then have "nodes (fs1\<lparr>fs_faults := gl\<rparr>) = nodes (fs\<lparr>fs_faults := gl\<rparr>)" by simp
    then have "nodes fs1 = nodes fs" by simp
    with x e fr show ?thesis by (simp add: rename_local_def Let_def)
  qed
  from ok failed local_failed show ?thesis by blast
qed

theorem rename_contract_witness:
  "fst (rename_s3 example_s3 example_bucket ''test/1.txt'' ''test/3.txt'') \<and>
   fst (copy_s3 example_s3 example_bucket ''test/1.txt'' ''test/3.txt'') \<and>
   lookup_object (snd (rename_s3 example_s3 example_bucket ''test/1.txt'' ''test/3.txt''))
     (applyPathPrefix_s3 example_s3 ''test/1.txt'') = None \<and>
   \<not> fst (copy_s3 example_s3 (example_bucket\<lparr>faults := [False, True]\<rparr>) ''test/1.txt'' ''test/3.txt'') \<and>
   \<not> fst (rename_s3 example_s3 (example_bucket\<lparr>faults := [False, True]\<rparr>) ''test/1.txt'' ''test/3.txt'') \<and>
   objects (snd (rename_s3 example_s3 (example_bucket\<lparr>faults := [False, True]\<rparr>) ''test/1.txt'' ''test/3.txt''))
     = objects example_bucket \<and>
   fst (has_s3 example_s3
          (snd (rename_s3 example_s3 (example_bucket\<lparr>faults := [False, True]\<rparr>) ''test/1.txt'' ''test/3.txt'')
             \<lparr>faults := []\<rparr>) ''test/1.txt'') \<and>
   \<not> fst (rename_local example_local example_tree ''test2/none.txt'' ''test2/test.txt'') \<and>
   nodes (snd (rename_local example_local example_tree ''test2/none.txt'' ''test2/test.txt''))
     = nodes example_tree"
proof -
  let ?m = "example_bucket\<lparr>faults := [False, True]\<rparr>"
  have h1: "fst (rename_s3 example_s3 example_bucket ''test/1.txt'' ''test/3.txt'')"
    by code_simp
  have h2: "\<not> fst (copy_s3 example_s3 ?m ''test/1.txt'' ''test/3.txt'')"
    by code_simp
  have h3: "\<not> fst (rename_local example_local example_tree ''test2/none.txt'' ''test2/test.txt'')"
    by code_simp
  have h4: "fst (has_s3 example_s3 (?m\<lparr>faults := []\<rparr>) ''test/1.txt'')"
    by code_simp
  have h5: "objects ?m = objects example_bucket" by simp
  note c1 = rename_contract [where a = example_s3 and m = example_bucket
      and p = "''test/1.txt''" and q = "''test/3.txt''"]
  note c2 = rename_contract [where a = example_s3 and m = ?m
      and p = "''test/1.txt''" and q = "''test/3.txt''" and fl = "[]"]
  note c3 = rename_contract [where b = example_local and fs = example_tree
      and p = "''test2/none.txt''" and q = "''test2/test.txt''"]
  from c1 h1 have g1: "fst (copy_s3 example_s3 example_bucket ''test/1.txt'' ''test/3.txt'') \<and>
     lookup_object (snd (rename_s3 example_s3 example_bucket ''test/1.txt'' ''test/3.txt''))
       (applyPathPrefix_s3 example_s3 ''test/1.txt'') = None"
    by blast
  from c2 h2 have g2: "\<not> fst (rename_s3 example_s3 ?m ''test/1.txt'' ''test/3.txt'') \<and>
     objects (snd (rename_s3 example_s3 ?m ''test/1.txt'' ''test/3.txt'')) = objects ?m \<and>
     has_s3 example_s3 (snd (rename_s3 example_s3 ?m ''test/1.txt'' ''test/3.txt'')\<lparr>faults := []\<rparr>) ''test/1.txt''
       = has_s3 example_s3 (?m\<lparr>faults := []\<rparr>) ''test/1.txt''"
    by blast
  from c3 h3 have g3: "nodes (snd (rename_local example_local example_tree ''test2/none.txt'' ''test2/test.txt''))
     = nodes example_tree"
    by blast
  from g2 h4 have g4: "fst (has_s3 example_s3
          (snd (rename_s3 example_s3 ?m ''test/1.txt'' ''test/3.txt'')\<lparr>faults := []\<rparr>) ''test/1.txt'')"
    by simp
  from h1 h2 h3 h5 g1 g2 g3 g4 show ?thesis by simp
qed

text \<open>
  The claim as stated, "rename is copy-then-delete-source and returns
  \<^verbatim>\<open>true\<close> only if both steps succeed", fails on the local adapter: it renames
  the directory \<^verbatim>\<open>test2/test31\<close> of the example tree with the native call and
  returns \<^verbatim>\<open>true\<close>, while its copy step on the same arguments returns
  \<^verbatim>\<open>false\<close> (\<^verbatim>\<open>copyFile\<close> refuses a directory).
\<close>

theorem local_rename_is_not_copy_then_delete:
  "fst (rename_local example_local example_tree ''test2/test31'' ''test2/test32'') \<and>
   \<not> fst (copy_local example_local example_tree ''test2/test31'' ''test2/test32'')"
  by code_simp

subsection \<open>Visibility of a copy (claim C8)\<close>

text \<open>
  Claim C8, as amended: on the S3 adapter, when no call to the medium fails and
  the adapter's options hold no \<open>ACL\<close>, \<open>Key\<close>, \<open>CopySource\<close> or \<open>Bucket\<close>
  entry, after a successful \<^verbatim>\<open>copy(path, newpath)\<close> \<^verbatim>\<open>getVisibility\<close> reports
  for the destination what it reported for the source.  The adapter's options are
  spread over the copy command last: when they hold an \<open>ACL\<close>, the destination
  is stored with that ACL.  On the Bun adapter \<^verbatim>\<open>getVisibility\<close> reports the
  same fixed value for the source and for the destination.
\<close>

theorem copy_preserves_visibility:
  "(faults m = [] \<and> options a ''ACL'' = None \<and> options a ''Key'' = None \<and>
    options a ''CopySource'' = None \<and> options a ''Bucket'' = None \<and>
    fst (copy_s3 a m path newpath) \<longrightarrow>
      fst (getVisibility_s3 a (snd (copy_s3 a m path newpath)) newpath) ''visibility''
        = fst (getVisibility_s3 a m path) ''visibility'') \<and>
   (faults m = [] \<and> options a ''ACL'' = Some (JStr acl) \<and> options a ''Key'' = None \<and>
    options a ''CopySource'' = None \<and> options a ''Bucket'' = None \<and>
    fst (copy_s3 a m path newpath) \<longrightarrow>
      map_option obj_acl
        (lookup_object (snd (copy_s3 a m path newpath)) (applyPathPrefix_s3 a newpath)) = Some acl) \<and>
   fst (getVisibility_bun b (snd (copy_bun b m path newpath)) newpath) ''visibility''
     = fst (getVisibility_bun b m path) ''visibility''"
proof (intro conjI impI)
  assume h: "faults m = [] \<and> options a ''ACL'' = None \<and> options a ''Key'' = None \<and>
    options a ''CopySource'' = None \<and> options a ''Bucket'' = None \<and>
    fst (copy_s3 a m path newpath)"
  then have nf: "faults m = []" and acl: "options a ''ACL'' = None" by simp_all
  from h have c: "copy_s3 a m path newpath =
     (case lookup_object m (applyPathPrefix_s3 a path) of
        None \<Rightarrow> (False, m)
      | Some ob \<Rightarrow>
          (True, store_object (applyPathPrefix_s3 a newpath)
                   (ob\<lparr>obj_modified := clock m,
                       obj_acl := str_of (([''ACL'' \<mapsto> JStr (if fst (getRawVisibility_s3 a m path) = ''public''
                                                              then ''public-read'' else ''private'')]
                                           ++ options a) ''ACL'')\<rparr>) m))"
    by (simp add: copy_s3_no_faults)
  with h obtain ob where ob: "lookup_object m (applyPathPrefix_s3 a path) = Some ob"
    by (cases "lookup_object m (applyPathPrefix_s3 a path)") simp_all
  define v where "v = fst (getRawVisibility_s3 a m path)"
  define m' where "m' = store_object (applyPathPrefix_s3 a newpath)
      (ob\<lparr>obj_modified := clock m,
          obj_acl := (if v = ''public'' then ''public-read'' else ''private'')\<rparr>) m"
  from c ob acl have m': "snd (copy_s3 a m path newpath) = m'"
    by (simp add: m'_def v_def map_add_def)
  have "faults m' = []" using nf by (simp add: m'_def faults_after_store)
  then have "fst (getRawVisibility_s3 a m' newpath) = v"
    using nf ob
    by (simp add: getRawVisibility_s3_no_faults m'_def lookup_after_store v_def)
  then show "fst (getVisibility_s3 a (snd (copy_s3 a m path newpath)) newpath) ''visibility''
        = fst (getVisibility_s3 a m path) ''visibility''"
    unfolding m' by (auto simp: getVisibility_s3_def v_def split: prod.splits)
next
  assume h: "faults m = [] \<and> options a ''ACL'' = Some (JStr acl) \<and> options a ''Key'' = None \<and>
    options a ''CopySource'' = None \<and> options a ''Bucket'' = None \<and>
    fst (copy_s3 a m path newpath)"
  then have c: "copy_s3 a m path newpath =
     (case lookup_object m (applyPathPrefix_s3 a path) of
        None \<Rightarrow> (False, m)
      | Some ob \<Rightarrow>
          (True, store_object (applyPathPrefix_s3 a newpath)
                   (ob\<lparr>obj_modified := clock m,
                       obj_acl := str_of (([''ACL'' \<mapsto> JStr (if fst (getRawVisibility_s3 a m path) = ''public''
                                                              then ''public-read'' else ''private'')]
                                           ++ options a) ''ACL'')\<rparr>) m))"
    by (simp add: copy_s3_no_faults)
  with h obtain ob where ob: "lookup_object m (applyPathPrefix_s3 a path) = Some ob"
    by (cases "lookup_object m (applyPathPrefix_s3 a path)") simp_all
  from c ob h
  show "map_option obj_acl
        (lookup_object (snd (copy_s3 a m path newpath)) (applyPathPrefix_s3 a newpath)) = Some acl"
    by (simp add: lookup_after_store map_add_def)
next
  show "fst (getVisibility_bun b (snd (copy_bun b m path newpath)) newpath) ''visibility''
     = fst (getVisibility_bun b m path) ''visibility''"
    by (simp add: getVisibility_bun_def)
qed

theorem copy_preserves_visibility_witness:
  "faults example_bucket = [] \<and> options example_s3 ''ACL'' = None \<and>
   options example_s3 ''Key'' = None \<and> options example_s3 ''CopySource'' = None \<and>
   options example_s3 ''Bucket'' = None \<and>
   fst (copy_s3 example_s3 example_bucket ''a/b/c.txt'' ''a/copy.txt'') \<and>
   fst (getVisibility_s3 example_s3 example_bucket ''a/b/c.txt'') ''visibility'' = Some (JStr ''public'') \<and>
   fst (getVisibility_s3 example_s3
          (snd (copy_s3 example_s3 example_bucket ''a/b/c.txt'' ''a/copy.txt'')) ''a/copy.txt'')
     ''visibility'' = Some (JStr ''public'') \<and>
   options example_s3_public ''ACL'' = Some (JStr ''public-read'') \<and>
   options example_s3_public ''Key'' = None \<and> options example_s3_public ''CopySource'' = None \<and>
   options example_s3_public ''Bucket'' = None \<and>
   fst (copy_s3 example_s3_public example_bucket ''test/1.txt'' ''test/2.txt'') \<and>
   map_option obj_acl
     (lookup_object (snd (copy_s3 example_s3_public example_bucket ''test/1.txt'' ''test/2.txt''))
        (applyPathPrefix_s3 example_s3_public ''test/2.txt'')) = Some ''public-read''"
proof -
  have h1: "faults example_bucket = [] \<and> options example_s3 ''ACL'' = None \<and>
    options example_s3 ''Key'' = None \<and> options example_s3 ''CopySource'' = None \<and>
    options example_s3 ''Bucket'' = None \<and>
    fst (copy_s3 example_s3 example_bucket ''a/b/c.txt'' ''a/copy.txt'')"
    by code_simp
  have h2: "fst (getVisibility_s3 example_s3 example_bucket ''a/b/c.txt'') ''visibility''
      = Some (JStr ''public'')"
    by code_simp
  have h3: "faults example_bucket = [] \<and> options example_s3_public ''ACL'' = Some (JStr ''public-read'') \<and>
    options example_s3_public ''Key'' = None \<and> options example_s3_public ''CopySource'' = None \<and>
    options example_s3_public ''Bucket'' = None \<and>
    fst (copy_s3 example_s3_public example_bucket ''test/1.txt'' ''test/2.txt'')"
    by code_simp
  note c1 = copy_preserves_visibility [where a = example_s3 and m = example_bucket
      and path = "''a/b/c.txt''" and newpath = "''a/copy.txt''"]
  note c2 = copy_preserves_visibility [where a = example_s3_public and m = example_bucket
      and path = "''test/1.txt''" and newpath = "''test/2.txt''" and acl = "''public-read''"]
  from c1 h1 have g1: "fst (getVisibility_s3 example_s3
          (snd (copy_s3 example_s3 example_bucket ''a/b/c.txt'' ''a/copy.txt'')) ''a/copy.txt'')
     ''visibility'' = fst (getVisibility_s3 example_s3 example_bucket ''a/b/c.txt'') ''visibility''"
    by blast
  from c2 h3 have g2: "map_option obj_acl
     (lookup_object (snd (copy_s3 example_s3_public example_bucket ''test/1.txt'' ''test/2.txt''))
        (applyPathPrefix_s3 example_s3_public ''test/2.txt'')) = Some ''public-read''"
    by blast
  from h1 h2 h3 g1 g2 show ?thesis by simp
qed

text \<open>
  The claim as stated fails on an S3 adapter constructed with the options
  \<^verbatim>\<open>{ ACL: 'public-read' }\<close>: the copy of the private \<^verbatim>\<open>test/1.txt\<close>
  succeeds, and the copy is public.
\<close>

theorem copy_with_acl_option_changes_visibility:
  "fst (copy_s3 example_s3_public example_bucket ''test/1.txt'' ''test/2.txt'') \<and>
   fst (getVisibility_s3 example_s3_public example_bucket ''test/1.txt'') ''visibility''
     = Some (JStr ''private'') \<and>
   fst (getVisibility_s3 example_s3_public
          (snd (copy_s3 example_s3_public example_bucket ''test/1.txt'' ''test/2.txt'')) ''test/2.txt'')
     ''visibility'' = Some (JStr ''public'')"
  by code_simp

subsection \<open>Metadata and its derivatives (claim C7)\<close>

text \<open>
  Claim C7, as amended: when no call to the medium fails otherwise,
  \<^verbatim>\<open>getMetadata(path)\<close> of the S3 and of the Bun adapter returns \<^verbatim>\<open>false\<close>
  when no object exists at the path, and for an existing file the entry with its
  path, type, size (and, on S3, timestamp and mimetype); on the Bun adapter
  \<^verbatim>\<open>getSize\<close>, \<^verbatim>\<open>getTimestamp\<close> and \<^verbatim>\<open>getMimetype\<close> return the one field
  of that entry, and \<^verbatim>\<open>false\<close> when the target does not exist.  On the S3
  adapter \<^verbatim>\<open>getSize\<close>, \<^verbatim>\<open>getTimestamp\<close> and \<^verbatim>\<open>getMimetype\<close> are not
  implemented: they throw, whatever the target.
\<close>

theorem metadata_entry_or_false:
  "(faults m = [] \<and> lookup_object m (applyPathPrefix_s3 a path) = None \<longrightarrow>
      fst (getMetadata_s3 a m path) = Inr None) \<and>
   (faults m = [] \<and> lookup_object m (applyPathPrefix_s3 a path) = Some ob \<and>
    \<not> ends_with_slash path \<and> path \<noteq> [] \<longrightarrow>
      (case fst (getMetadata_s3 a m path) of
         Inr (Some e) \<Rightarrow>
           e ''path'' = Some (JStr path) \<and> e ''type'' = Some (JStr ''file'') \<and>
           e ''size'' = Some (JNum (of_nat (length (obj_body ob)))) \<and>
           e ''timestamp'' = Some (JNum (of_int (obj_modified ob div 1000))) \<and>
           e ''mimetype'' = Some (JStr (obj_ctype ob))
       | _ \<Rightarrow> False)) \<and>
   fst (getSize_s3 a m path) = Inl NotImplemented \<and>
   fst (getTimestamp_s3 a m path) = Inl NotImplemented \<and>
   fst (getMimetype_s3 a m path) = Inl NotImplemented \<and>
   (faults m = [] \<and> lookup_object m (applyPathPrefix_bun b path) = None \<longrightarrow>
      fst (getMetadata_bun b m path) = Inr None \<and>
      fst (getSize_bun b m path) = Inr None \<and>
      fst (getTimestamp_bun b m path) = Inr None \<and>
      fst (getMimetype_bun b m path) = Inr None) \<and>
   (faults m = [] \<and> lookup_object m (applyPathPrefix_bun b path) = Some ob \<and>
    \<not> ends_with_slash path \<and> path \<noteq> [] \<longrightarrow>
      (case fst (getMetadata_bun b m path) of
         Inr (Some e) \<Rightarrow>
           e ''path'' = Some (JStr path) \<and> e ''type'' = Some (JStr ''file'') \<and>
           e ''size'' = Some (JNum (of_nat (length (obj_body ob)))) \<and>
           (case fst (getSize_bun b m path) of
              Inr (Some s) \<Rightarrow> s ''size'' = e ''size'' | _ \<Rightarrow> False) \<and>
           (case fst (getTimestamp_bun b m path) of
              Inr (Some s) \<Rightarrow> s ''timestamp'' = e ''timestamp'' | _ \<Rightarrow> False) \<and>
           (case fst (getMimetype_bun b m path) of
              Inr (Some s) \<Rightarrow> s ''mimetype'' = Some (JStr (mime_or_default (bun_mime b) path))
            | _ \<Rightarrow> False)
       | _ \<Rightarrow> False))"
proof (intro conjI impI)
  assume "faults m = [] \<and> lookup_object m (applyPathPrefix_s3 a path) = None"
  then show "fst (getMetadata_s3 a m path) = Inr None"
    by (simp add: getMetadata_s3_no_faults)
next
  assume h: "faults m = [] \<and> lookup_object m (applyPathPrefix_s3 a path) = Some ob \<and>
    \<not> ends_with_slash path \<and> path \<noteq> []"
  then have "fst (getMetadata_s3 a m path) = Inr (Some (normalizeResponse_s3 a (head_of ob) path))"
    by (simp add: getMetadata_s3_no_faults)
  with h show "case fst (getMetadata_s3 a m path) of
         Inr (Some e) \<Rightarrow>
           e ''path'' = Some (JStr path) \<and> e ''type'' = Some (JStr ''file'') \<and>
           e ''size'' = Some (JNum (of_nat (length (obj_body ob)))) \<and>
           e ''timestamp'' = Some (JNum (of_int (obj_modified ob div 1000))) \<and>
           e ''mimetype'' = Some (JStr (obj_ctype ob))
       | _ \<Rightarrow> False"
    by (simp add: file_entry_s3)
next
  show "fst (getSize_s3 a m path) = Inl NotImplemented"
    by (simp add: getSize_s3_def)
next
  show "fst (getTimestamp_s3 a m path) = Inl NotImplemented"
    by (simp add: getTimestamp_s3_def)
next
  show "fst (getMimetype_s3 a m path) = Inl NotImplemented"
    by (simp add: getMimetype_s3_def)
next
  assume h: "faults m = [] \<and> lookup_object m (applyPathPrefix_bun b path) = None"
  then have g: "getMetadata_bun b m path = (Inr None, m)"
    by (simp add: getMetadata_bun_no_faults)
  then show "fst (getMetadata_bun b m path) = Inr None"
    and "fst (getSize_bun b m path) = Inr None"
    and "fst (getTimestamp_bun b m path) = Inr None"
    and "fst (getMimetype_bun b m path) = Inr None"
    by (simp_all add: getSize_bun_def getTimestamp_bun_def getMimetype_bun_def)
next
  assume h: "faults m = [] \<and> lookup_object m (applyPathPrefix_bun b path) = Some ob \<and>
    \<not> ends_with_slash path \<and> path \<noteq> []"
  define r where "r = (\<lambda>k. if k = ''key'' then Some (JStr (applyPathPrefix_bun b path))
                         else if k = ''size'' then Some (JNum (of_nat (length (obj_body ob))))
                         else if k = ''lastModified''
                         then Some (JDate (http_date (obj_modified ob)))
                         else None)"
  from h have g: "getMetadata_bun b m path = (Inr (Some (normalizeResponse_bun b r path)), m)"
    by (simp add: getMetadata_bun_no_faults r_def)
  from h have "normalizeResponse_bun b r path ''path'' = Some (JStr path)"
    and "normalizeResponse_bun b r path ''type'' = Some (JStr ''file'')"
    and "normalizeResponse_bun b r path ''size'' = Some (JNum (of_nat (length (obj_body ob))))"
    unfolding r_def by (simp_all add: file_entry_bun)
  with g show "case fst (getMetadata_bun b m path) of
         Inr (Some e) \<Rightarrow>
           e ''path'' = Some (JStr path) \<and> e ''type'' = Some (JStr ''file'') \<and>
           e ''size'' = Some (JNum (of_nat (length (obj_body ob)))) \<and>
           (case fst (getSize_bun b m path) of
              Inr (Some s) \<Rightarrow> s ''size'' = e ''size'' | _ \<Rightarrow> False) \<and>
           (case fst (getTimestamp_bun b m path) of
              Inr (Some s) \<Rightarrow> s ''timestamp'' = e ''timestamp'' | _ \<Rightarrow> False) \<and>
           (case fst (getMimetype_bun b m path) of
              Inr (Some s) \<Rightarrow> s ''mimetype'' = Some (JStr (mime_or_default (bun_mime b) path))
            | _ \<Rightarrow> False)
       | _ \<Rightarrow> False"
    by (simp add: getSize_bun_def getTimestamp_bun_def getMimetype_bun_def)
qed


theorem metadata_entry_or_false_witness:
  "faults example_bucket = [] \<and>
   lookup_object example_bucket (applyPathPrefix_s3 example_s3 ''test/missing.txt'') = None \<and>
   fst (getMetadata_s3 example_s3 example_bucket ''test/missing.txt'') = Inr None \<and>
   lookup_object example_bucket (applyPathPrefix_s3 example_s3 ''test/1.txt'')
     = Some (example_object ''test'' ''private'') \<and>
   \<not> ends_with_slash ''test/1.txt'' \<and> ''test/1.txt'' \<noteq> [] \<and>
   (case fst (getMetadata_s3 example_s3 example_bucket ''test/1.txt'') of
      Inr (Some e) \<Rightarrow>
        e ''path'' = Some (JStr ''test/1.txt'') \<and> e ''type'' = Some (JStr ''file'') \<and>
        e ''size'' = Some (JNum (of_nat (length (obj_body (example_object ''test'' ''private''))))) \<and>
        e ''timestamp'' = Some (JNum (of_int (obj_modified (example_object ''test'' ''private'') div 1000))) \<and>
        e ''mimetype'' = Some (JStr (obj_ctype (example_object ''test'' ''private'')))
    | _ \<Rightarrow> False) \<and>
   lookup_object example_bucket (applyPathPrefix_bun example_bun ''test/missing.txt'') = None \<and>
   fst (getMetadata_bun example_bun example_bucket ''test/missing.txt'') = Inr None \<and>
   fst (getSize_bun example_bun example_bucket ''test/missing.txt'') = Inr None \<and>
   lookup_object example_bucket (applyPathPrefix_bun example_bun ''test/1.txt'')
     = Some (example_object ''test'' ''private'') \<and>
   (case fst (getMetadata_bun example_bun example_bucket ''test/1.txt'') of
      Inr (Some e) \<Rightarrow>
        e ''path'' = Some (JStr ''test/1.txt'') \<and> e ''type'' = Some (JStr ''file'') \<and>
        e ''size'' = Some (JNum (of_nat (length (obj_body (example_object ''test'' ''private''))))) \<and>
        (case fst (getSize_bun example_bun example_bucket ''test/1.txt'') of
           Inr (Some s) \<Rightarrow> s ''size'' = e ''size'' | _ \<Rightarrow> False) \<and>
        (case fst (getTimestamp_bun example_bun example_bucket ''test/1.txt'') of
           Inr (Some s) \<Rightarrow> s ''timestamp'' = e ''timestamp'' | _ \<Rightarrow> False) \<and>
        (case fst (getMimetype_bun example_bun example_bucket ''test/1.txt'') of
           Inr (Some s) \<Rightarrow>
             s ''mimetype'' = Some (JStr (mime_or_default (bun_mime example_bun) ''test/1.txt''))
         | _ \<Rightarrow> False)
    | _ \<Rightarrow> False)"
proof -
  have h0: "faults example_bucket = []" by code_simp
  have h1: "lookup_object example_bucket (applyPathPrefix_s3 example_s3 ''test/missing.txt'') = None"
    by code_simp
  have h2: "lookup_object example_bucket (applyPathPrefix_s3 example_s3 ''test/1.txt'')
     = Some (example_object ''test'' ''private'')"
    by code_simp
  have h3: "\<not> ends_with_slash ''test/1.txt'' \<and> ''test/1.txt'' \<noteq> []" by code_simp
  have h4: "lookup_object example_bucket (applyPathPrefix_bun example_bun ''test/missing.txt'') = None"
    by code_simp
  have h5: "lookup_object example_bucket (applyPathPrefix_bun example_bun ''test/1.txt'')
     = Some (example_object ''test'' ''private'')"
    by code_simp
  note c1 = metadata_entry_or_false [where a = example_s3 and b = example_bun and m = example_bucket
      and path = "''test/missing.txt''"]
  note c2 = metadata_entry_or_false [where a = example_s3 and b = example_bun and m = example_bucket
      and path = "''test/1.txt''" and ob = "example_object ''test'' ''private''"]
  from c1 h0 h1 have g1: "fst (getMetadata_s3 example_s3 example_bucket ''test/missing.txt'') = Inr None"
    by blast
  from c1 h0 h4 have g2: "fst (getMetadata_bun example_bun example_bucket ''test/missing.txt'') = Inr None \<and>
     fst (getSize_bun example_bun example_bucket ''test/missing.txt'') = Inr None"
    by blast
  from c2 h0 h2 h3 have g3: "(case fst (getMetadata_s3 example_s3 example_bucket ''test/1.txt'') of
      Inr (Some e) \<Rightarrow>
        e ''path'' = Some (JStr ''test/1.txt'') \<and> e ''type'' = Some (JStr ''file'') \<and>
        e ''size'' = Some (JNum (of_nat (length (obj_body (example_object ''test'' ''private''))))) \<and>
        e ''timestamp'' = Some (JNum (of_int (obj_modified (example_object ''test'' ''private'') div 1000))) \<and>
        e ''mimetype'' = Some (JStr (obj_ctype (example_object ''test'' ''private'')))
    | _ \<Rightarrow> False)"
    by blast
  from c2 h0 h5 h3 have g4: "(case fst (getMetadata_bun example_bun example_bucket ''test/1.txt'') of
      Inr (Some e) \<Rightarrow>
        e ''path'' = Some (JStr ''test/1.txt'') \<and> e ''type'' = Some (JStr ''file'') \<and>
        e ''size'' = Some (JNum (of_nat (length (obj_body (example_object ''test'' ''private''))))) \<and>
        (case fst (getSize_bun example_bun example_bucket ''test/1.txt'') of
           Inr (Some s) \<Rightarrow> s ''size'' = e ''size'' | _ \<Rightarrow> False) \<and>
        (case fst (getTimestamp_bun example_bun example_bucket ''test/1.txt'') of
           Inr (Some s) \<Rightarrow> s ''timestamp'' = e ''timestamp'' | _ \<Rightarrow> False) \<and>
        (case fst (getMimetype_bun example_bun example_bucket ''test/1.txt'') of
           Inr (Some s) \<Rightarrow>
             s ''mimetype'' = Some (JStr (mime_or_default (bun_mime example_bun) ''test/1.txt''))
         | _ \<Rightarrow> False)
    | _ \<Rightarrow> False)"
    by blast
  from h0 h1 h2 h3 h4 h5 g1 g2 g3 g4 show ?thesis by blast
qed

text \<open>
  The claim as stated fails on the S3 adapter: \<^verbatim>\<open>getSize\<close> of the existing
  \<^verbatim>\<open>test/1.txt\<close> throws instead of returning its size, and when the medium's
  call fails with a fault that is no missing target, \<^verbatim>\<open>getMetadata\<close> returns
  \<^verbatim>\<open>false\<close>, not an error distinct from it.
\<close>

theorem s3_getSize_throws_and_fault_reads_false:
  "lookup_object example_bucket (applyPathPrefix_s3 example_s3 ''test/1.txt'')
     = Some (example_object ''test'' ''private'') \<and>
   (case fst (getSize_s3 example_s3 example_bucket ''test/1.txt'') of
      Inl e \<Rightarrow> e = NotImplemented | Inr r \<Rightarrow> False) \<and>
   (case fst (getMetadata_s3 example_s3 (example_bucket\<lparr>faults := [True]\<rparr>) ''test/1.txt'') of
      Inr None \<Rightarrow> True | _ \<Rightarrow> False)"
  by code_simp

subsection \<open>Deleting a directory (claim C6)\<close>

text \<open>
  Claim C6, as amended: on the S3 adapter, when no call to the medium fails (and a
  page holds at least one key), \<^verbatim>\<open>deleteDir(path)\<close> returns \<^verbatim>\<open>true\<close> and leaves
  the bucket without any object under the directory's prefix and with every other
  object untouched, through however many pages the listing takes, and also when
  nothing exists under the prefix.  On the Bun adapter the same holds when the
  objects under the prefix fit on one page of the listing (also when there are
  none); what it does with a longer listing is not part of the amended claim.  On
  the local adapter \<^verbatim>\<open>deleteDir\<close> returns \<^verbatim>\<open>false\<close> and changes nothing when
  the path is not an existing directory; when it is one and no call fails, it
  returns \<^verbatim>\<open>true\<close> and the directory with everything below it is gone.
\<close>

theorem deleteDir_contract:
  "(faults m = [] \<and> 0 < maxKeys m \<longrightarrow>
      deleteDir_s3 a m d =
        (True, m\<lparr>objects := filter (\<lambda>kv. \<not> starts_with (rtrim (applyPathPrefix_s3 a d) ''/'' @ ''/'') (fst kv))
                                 (objects m)\<rparr>)) \<and>
   (faults m = [] \<and>
    length (filter (\<lambda>kv. starts_with (rtrim (applyPathPrefix_bun b d) ''/'' @ ''/'') (fst kv))
              (objects m)) \<le> maxKeys m \<longrightarrow>
      deleteDir_bun b m d =
        (True, m\<lparr>objects := filter (\<lambda>kv. \<not> starts_with (rtrim (applyPathPrefix_bun b d) ''/'' @ ''/'') (fst kv))
                                 (objects m)\<rparr>)) \<and>
   ((case fs_find fs (applyPathPrefix_local c d) of Inl e \<Rightarrow> True | Inr n \<Rightarrow> \<not> is_directory n) \<longrightarrow>
      \<not> fst (deleteDir_local c fs d) \<and> nodes (snd (deleteDir_local c fs d)) = nodes fs) \<and>
   (fs_faults fs = [] \<and>
    (case fs_find fs (applyPathPrefix_local c d) of Inl e \<Rightarrow> False | Inr n \<Rightarrow> is_directory n) \<longrightarrow>
      fst (deleteDir_local c fs d) \<and>
      nodes (snd (deleteDir_local c fs d)) =
        filter (\<lambda>kv. fst kv \<noteq> strip_sep (applyPathPrefix_local c d) \<and>
                     \<not> below (applyPathPrefix_local c d) (fst kv)) (nodes fs))"
proof (intro conjI impI)
  assume h: "faults m = [] \<and> 0 < maxKeys m"
  then show "deleteDir_s3 a m d =
        (True, m\<lparr>objects := filter (\<lambda>kv. \<not> starts_with (rtrim (applyPathPrefix_s3 a d) ''/'' @ ''/'') (fst kv))
                                 (objects m)\<rparr>)"
    by (simp add: deleteDir_s3_def deleteDir_loop_s3_no_faults selected_from_start)
next
  let ?pfx = "rtrim (applyPathPrefix_bun b d) ''/'' @ ''/''"
  assume h: "faults m = [] \<and>
    length (filter (\<lambda>kv. starts_with ?pfx (fst kv)) (objects m)) \<le> maxKeys m"
  have "selected ?pfx None = (\<lambda>kv. starts_with ?pfx (fst kv))"
    by (rule ext) (rule selected_from_start)
  with h have "length (filter (selected ?pfx None) (objects m)) \<le> maxKeys m" by simp
  with h have "deleteDir_loop_bun b m ?pfx None =
      (True, m\<lparr>objects := filter (\<lambda>kv. \<not> selected ?pfx None kv) (objects m)\<rparr>)"
    by (intro deleteDir_loop_bun_one_page) simp_all
  then show "deleteDir_bun b m d =
        (True, m\<lparr>objects := filter (\<lambda>kv. \<not> starts_with ?pfx (fst kv)) (objects m)\<rparr>)"
    by (simp add: deleteDir_bun_def selected_from_start)
next
  assume h: "case fs_find fs (applyPathPrefix_local c d) of Inl e \<Rightarrow> True | Inr n \<Rightarrow> \<not> is_directory n"
  obtain f fs' where tf: "fs_take_fault fs = (f, fs')" by (cases "fs_take_fault fs")
  then have n: "nodes fs' = nodes fs" by (simp add: fs_take_fault_cases)
  have ff: "fs_find fs' p = fs_find fs p" for p using n by (rule fs_find_fault_free)
  from h tf have "isDir_local c fs (applyPathPrefix_local c d) = (False, fs')"
    by (cases f; cases "fs_find fs (applyPathPrefix_local c d)")
       (simp_all add: isDir_local_def fs_stat_def ff)
  with n show "\<not> fst (deleteDir_local c fs d)"
    and "nodes (snd (deleteDir_local c fs d)) = nodes fs"
    by (simp_all add: deleteDir_local_def)
next
  assume h: "fs_faults fs = [] \<and>
    (case fs_find fs (applyPathPrefix_local c d) of Inl e \<Rightarrow> False | Inr n \<Rightarrow> is_directory n)"
  then have tf: "fs_take_fault fs = (False, fs)" by (simp add: fs_take_fault_def)
  from h tf have "isDir_local c fs (applyPathPrefix_local c d) = (True, fs)"
    by (cases "fs_find fs (applyPathPrefix_local c d)") (simp_all add: isDir_local_def fs_stat_def)
  with tf show "fst (deleteDir_local c fs d)"
    and "nodes (snd (deleteDir_local c fs d)) =
        filter (\<lambda>kv. fst kv \<noteq> strip_sep (applyPathPrefix_local c d) \<and>
                     \<not> below (applyPathPrefix_local c d) (fst kv)) (nodes fs)"
    by (simp_all add: deleteDir_local_def fs_rm_rf_def Let_def)
qed


theorem deleteDir_contract_witness:
  "faults example_bucket = [] \<and> 0 < maxKeys example_bucket \<and>
   deleteDir_s3 example_s3 example_bucket ''a'' =
     (True, example_bucket\<lparr>objects :=
        filter (\<lambda>kv. \<not> starts_with (rtrim (applyPathPrefix_s3 example_s3 ''a'') ''/'' @ ''/'') (fst kv))
          (objects example_bucket)\<rparr>) \<and>
   map fst (objects (snd (deleteDir_s3 example_s3 example_bucket ''a''))) = [''unittest/test/1.txt''] \<and>
   length (filter (\<lambda>kv. starts_with (rtrim (applyPathPrefix_bun example_bun ''test'') ''/'' @ ''/'') (fst kv))
             (objects example_bucket)) \<le> maxKeys example_bucket \<and>
   fst (deleteDir_bun example_bun example_bucket ''test'') \<and>
   map fst (objects (snd (deleteDir_bun example_bun example_bucket ''test''))) =
     [''unittest/a/b/c.txt'', ''unittest/a/x.txt'', ''unittest/a/b/d/e.txt''] \<and>
   fs_find example_tree (applyPathPrefix_local example_local ''test2/none'') = Inl ENOENT \<and>
   \<not> fst (deleteDir_local example_local example_tree ''test2/none'') \<and>
   nodes (snd (deleteDir_local example_local example_tree ''test2/none'')) = nodes example_tree \<and>
   fs_faults example_tree = [] \<and>
   fst (deleteDir_local example_local example_tree ''test2'') \<and>
   map fst (nodes (snd (deleteDir_local example_local example_tree ''test2''))) = [''/srv/files'']"
proof -
  have h1: "faults example_bucket = [] \<and> 0 < maxKeys example_bucket" by code_simp
  have h2: "fs_find example_tree (applyPathPrefix_local example_local ''test2/none'') = Inl ENOENT"
    by code_simp
  have h3: "fs_faults example_tree = [] \<and>
    (case fs_find example_tree (applyPathPrefix_local example_local ''test2'') of
       Inl e \<Rightarrow> False | Inr n \<Rightarrow> is_directory n)"
    by code_simp
  have e1: "map fst (filter (\<lambda>kv. \<not> starts_with (rtrim (applyPathPrefix_s3 example_s3 ''a'') ''/'' @ ''/'') (fst kv))
          (objects example_bucket)) = [''unittest/test/1.txt'']"
    by code_simp
  have h4: "length (filter (\<lambda>kv. starts_with (rtrim (applyPathPrefix_bun example_bun ''test'') ''/'' @ ''/'') (fst kv))
             (objects example_bucket)) \<le> maxKeys example_bucket"
    by code_simp
  have e2: "map fst (filter (\<lambda>kv. \<not> starts_with (rtrim (applyPathPrefix_bun example_bun ''test'') ''/'' @ ''/'') (fst kv))
          (objects example_bucket)) = [''unittest/a/b/c.txt'', ''unittest/a/x.txt'', ''unittest/a/b/d/e.txt'']"
    by code_simp
  have e3: "map fst (filter (\<lambda>kv. fst kv \<noteq> strip_sep (applyPathPrefix_local example_local ''test2'') \<and>
                     \<not> below (applyPathPrefix_local example_local ''test2'') (fst kv)) (nodes example_tree))
      = [''/srv/files'']"
    by code_simp
  note c1 = deleteDir_contract [where a = example_s3 and b = example_bun and m = example_bucket
      and d = "''a''"]
  note c4 = deleteDir_contract [where b = example_bun and m = example_bucket and d = "''test''"]
  note c2 = deleteDir_contract [where c = example_local and fs = example_tree and d = "''test2/none''"]
  note c3 = deleteDir_contract [where c = example_local and fs = example_tree and d = "''test2''"]
  from c1 h1 have g1: "deleteDir_s3 example_s3 example_bucket ''a'' =
     (True, example_bucket\<lparr>objects :=
        filter (\<lambda>kv. \<not> starts_with (rtrim (applyPathPrefix_s3 example_s3 ''a'') ''/'' @ ''/'') (fst kv))
          (objects example_bucket)\<rparr>)"
    by blast
  from c4 h1 h4 have g2: "deleteDir_bun example_bun example_bucket ''test'' =
     (True, example_bucket\<lparr>objects :=
        filter (\<lambda>kv. \<not> starts_with (rtrim (applyPathPrefix_bun example_bun ''test'') ''/'' @ ''/'') (fst kv))
          (objects example_bucket)\<rparr>)"
    by blast
  from c2 h2 have g3: "\<not> fst (deleteDir_local example_local example_tree ''test2/none'') \<and>
     nodes (snd (deleteDir_local example_local example_tree ''test2/none'')) = nodes example_tree"
    by simp
  from c3 h3 have g4: "fst (deleteDir_local example_local example_tree ''test2'') \<and>
      nodes (snd (deleteDir_local example_local example_tree ''test2'')) =
        filter (\<lambda>kv. fst kv \<noteq> strip_sep (applyPathPrefix_local example_local ''test2'') \<and>
                     \<not> below (applyPathPrefix_local example_local ''test2'') (fst kv)) (nodes example_tree)"
    by blast
  from h1 h2 h3 h4 g1 g2 g3 g4 e1 e2 e3 show ?thesis by simp
qed

text \<open>
  The claim as stated, "\<^verbatim>\<open>deleteDir\<close> returns \<^verbatim>\<open>true\<close> also when the
  directory does not exist", fails on the local adapter: its guard
  \<^verbatim>\<open>if (!(await this.isDir(location))) return false\<close> answers a missing
  directory with \<^verbatim>\<open>false\<close>.
\<close>

theorem local_deleteDir_missing_returns_false:
  "fs_find example_tree (applyPathPrefix_local example_local ''test2/none'') = Inl ENOENT \<and>
   \<not> fst (deleteDir_local example_local example_tree ''test2/none'')"
  by code_simp

subsection \<open>Directory emulation in listings (claim C1)\<close>

text \<open>
  What the fetched page holds, the emulator completes: the S3 adapter returns the
  directory \<^verbatim>\<open>a/b\<close> when the key \<^verbatim>\<open>a/b/c.txt\<close> is on the page its one
  \<^verbatim>\<open>ListObjectsV2Command\<close> fetched.
\<close>

lemma listContents_s3_emulates_first_page:
  assumes px: "\<not> starts_with ''/'' (pathPrefix a)" and nf: "faults m = []"
    and k: "(pathPrefix a @ ''a/b/c.txt'', ob)
              \<in> set (fst (list_page m (maxKeys m) (pathPrefix a @ ''a/'') False None))"
  shows "case fst (listContents_s3 a m ''a'' True) of
           Inr r \<Rightarrow> \<exists>e \<in> set r. e ''path'' = Some (JStr ''a/b'') \<and>
                      e ''type'' = Some (JStr ''dir'') \<and> e ''dirname'' = Some (JStr ''a'')
         | Inl e \<Rightarrow> False"
proof -
  define page where
    "page = take (maxKeys m) (sort_key fst (filter (selected (pathPrefix a @ ''a/'') None) (objects m)))"
  define response where
    "response = map (\<lambda>element. normalizeResponse_s3 a element []) (map listed_object page)"
  define f where "f = normalizeResponse_s3 a (listed_object (pathPrefix a @ ''a/b/c.txt'', ob)) []"
  have pk: "applyPathPrefix_s3 a (rtrim ''a'' ''/'' @ ''/'') = pathPrefix a @ ''a/''"
    using key_roundtrip(2) [OF px] by (simp add: applyPathPrefix_s3_def rtrim_def)
  have "cursor_entry None = Map.empty" by (simp add: cursor_entry_def)
  with list_step_s3 [OF nf, of "bucket a" "pathPrefix a @ ''a/''" None]
  have step: "send_ListObjects m [''Bucket'' \<mapsto> JStr (bucket a),
                                    ''Prefix'' \<mapsto> JStr (pathPrefix a @ ''a/'')]
                = (Inr \<lparr>Contents = map listed_object page, CommonPrefixes = [],
                       NextContinuationToken =
                         (if maxKeys m < length (filter (selected (pathPrefix a @ ''a/'') None) (objects m)) \<and>
                             page \<noteq> []
                          then Some (fst (last page)) else None)\<rparr>, m)"
    by (simp add: page_def)
  have res: "fst (listContents_s3 a m ''a'' True) =
          Inr (filter (\<lambda>item. rtrim (path_of item) ''/'' \<noteq> rtrim ''a'' ''/'')
                 (emulateDirectories response))"
    unfolding listContents_s3_def pk Let_def response_def
    by (simp add: step)
  from k have "(pathPrefix a @ ''a/b/c.txt'', ob) \<in> set page"
    by (simp add: list_page_plain page_def)
  then have fin: "f \<in> set response" by (auto simp: f_def response_def)
  have wf: "list_all well_formed_entry response"
    by (auto simp: response_def list_all_iff normalizeResponse_s3_entry)
  have "path_of f = ''a/b/c.txt''" unfolding f_def by (rule listed_file_path_s3 [OF px])
  from listing_has_a_b [OF wf fin this] show ?thesis unfolding res by simp
qed

text \<open>
  Claim C1: a recursive listing of \<^verbatim>\<open>a\<close> in a store that holds the key \<^verbatim>\<open>a/b/c.txt\<close>
  contains the directory \<^verbatim>\<open>a/b\<close>.

  Neither object-store adapter gets past the first page of the listing.  The S3
  adapter sends one \<^verbatim>\<open>ListObjectsV2Command\<close> (its \<^verbatim>\<open>@todo\<close> says so).  The Bun
  adapter loops on \<^verbatim>\<open>result.continuationToken\<close>, which repeats the token of the
  request and is absent after the first one, so its loop ends there.  In a bucket
  whose pages hold two keys, with \<^verbatim>\<open>a/1.txt\<close> and \<^verbatim>\<open>a/2.txt\<close> before
  \<^verbatim>\<open>a/b/c.txt\<close>, both return the two files and no directory.
\<close>

theorem listing_stops_after_first_page:
  "lookup_object crowded_bucket (applyPathPrefix_s3 example_s3 ''a/b/c.txt'') \<noteq> None \<and>
   (case fst (listContents_s3 example_s3 crowded_bucket ''a'' True) of
      Inr r \<Rightarrow> map (\<lambda>e. (path_of e, str_of (e ''type''))) r
                 = [(''a/1.txt'', ''file''), (''a/2.txt'', ''file'')]
    | Inl e \<Rightarrow> False) \<and>
   (case listContents_bun example_bun crowded_bucket ''a'' True of
      Some (Inr r, m') \<Rightarrow> map (\<lambda>e. (path_of e, str_of (e ''type''))) r
                 = [(''a/1.txt'', ''file''), (''a/2.txt'', ''file'')]
    | _ \<Rightarrow> False)"
  by code_simp

end
